theory Spec2Isabelle
  imports Complex_Main
begin

section \<open>Numerical core of the biorbd tutorial notebooks\<close>

text \<open>
  The notebooks \<^verbatim>\<open>6-forward_dynamics\<close> (integrators, trajectory driver, shooting cost)
  and the inverse-kinematics notebook are embedded below. A numpy array of
  \<^verbatim>\<open>float64\<close> is a list of reals (one axis) or a record of rows (two axes).
  The shape rules of numpy (broadcasting, \<^verbatim>\<open>@\<close>, in-place operators, indexing) are
  part of the model: where numpy raises, the model returns \<open>Inl\<close> of the error.

  Arithmetic has two readings. The definitions \<open>euler\<close>, \<open>rk4\<close>,
  \<open>perform_integration\<close> and those of the inverse kinematics compute in exact real
  arithmetic. The definitions \<open>euler_fl\<close>, \<open>rk4_fl\<close> and \<open>perform_integration_fl\<close>
  take a rounding function that is applied to the result of every arithmetic
  operation of the source: with \<open>f64_round\<close> they compute as Python and numpy do on
  \<^verbatim>\<open>float64\<close>, with the identity they are the exact ones. The statements whose
  truth depends on rounding are made on the definitions with a rounding function.

  The rigid-body library and \<^verbatim>\<open>numpy.linalg.pinv\<close> are external and enter as
  parameters; of \<^verbatim>\<open>scipy.optimize.minimize\<close> the handling of the bounds is modelled
  and the iterations are a parameter.
\<close>

subsection \<open>numpy arrays\<close>

datatype error = ValueError | IndexError

type_synonym 'a res = "error + 'a"

definition bind_res :: "'a res \<Rightarrow> ('a \<Rightarrow> 'b res) \<Rightarrow> 'b res" where
  "bind_res r k = (case r of Inl e \<Rightarrow> Inl e | Inr v \<Rightarrow> k v)"

type_synonym vec = "real list"

text \<open>Two operand lengths broadcast when they agree or one of them is 1.\<close>

definition broadcastable :: "nat \<Rightarrow> nat \<Rightarrow> bool" where
  "broadcastable m n \<longleftrightarrow> m = n \<or> m = 1 \<or> n = 1"

definition bdim :: "nat \<Rightarrow> nat \<Rightarrow> nat" where
  "bdim m n = (if m = 1 then n else m)"

text \<open>\<^verbatim>\<open>a + b\<close> on one-axis arrays.\<close>

definition add1 :: "vec \<Rightarrow> vec \<Rightarrow> vec res" where
  "add1 a b =
     (if length a = length b then Inr (map2 (+) a b)
      else if length a = 1 then Inr (map (\<lambda>y. hd a + y) b)
      else if length b = 1 then Inr (map (\<lambda>x. x + hd b) a)
      else Inl ValueError)"

text \<open>\<^verbatim>\<open>c * a\<close> and \<^verbatim>\<open>a * c\<close> for a Python scalar \<open>c\<close>.\<close>

definition scale :: "real \<Rightarrow> vec \<Rightarrow> vec" where
  "scale c a = map (\<lambda>x. c * x) a"

record array2 =
  ncols :: nat
  rows :: "real list list"

definition nrows :: "array2 \<Rightarrow> nat" where
  "nrows a = length (rows a)"

text \<open>\<^verbatim>\<open>v[:, numpy.newaxis]\<close>: a one-axis array as a column.\<close>

definition newaxis :: "vec \<Rightarrow> array2" where
  "newaxis v = \<lparr>ncols = 1, rows = map (\<lambda>x. [x]) v\<rparr>"

text \<open>\<^verbatim>\<open>a[:, 0]\<close>: column 0, an IndexError on an array without columns.\<close>

definition column0 :: "array2 \<Rightarrow> vec res" where
  "column0 a = (if ncols a = 0 then Inl IndexError else Inr (map hd (rows a)))"

text \<open>\<^verbatim>\<open>numpy.concatenate((a, b), axis=0)\<close> on two-axis arrays.\<close>

definition concatenate0 :: "array2 \<Rightarrow> array2 \<Rightarrow> array2 res" where
  "concatenate0 a b =
     (if ncols a = ncols b then Inr \<lparr>ncols = ncols a, rows = rows a @ rows b\<rparr>
      else Inl ValueError)"

definition bget :: "array2 \<Rightarrow> nat \<Rightarrow> nat \<Rightarrow> real" where
  "bget a i j = rows a ! (if nrows a = 1 then 0 else i) ! (if ncols a = 1 then 0 else j)"

text \<open>An elementwise binary operator on two-axis arrays, with broadcasting.\<close>

definition broadcast2 :: "(real \<Rightarrow> real \<Rightarrow> real) \<Rightarrow> array2 \<Rightarrow> array2 \<Rightarrow> array2 res" where
  "broadcast2 f a b =
     (if broadcastable (nrows a) (nrows b) \<and> broadcastable (ncols a) (ncols b)
      then Inr \<lparr>ncols = bdim (ncols a) (ncols b),
                rows = map (\<lambda>i. map (\<lambda>j. f (bget a i j) (bget b i j))
                                   [0..<bdim (ncols a) (ncols b)])
                           [0..<bdim (nrows a) (nrows b)]\<rparr>
      else Inl ValueError)"

definition sub2 :: "array2 \<Rightarrow> array2 \<Rightarrow> array2 res" where
  "sub2 a b = broadcast2 (-) a b"

text \<open>\<^verbatim>\<open>a -= b\<close>: the broadcast result must have the shape of \<open>a\<close>, which receives it.\<close>

definition isub2 :: "array2 \<Rightarrow> array2 \<Rightarrow> array2 res" where
  "isub2 a b =
     (if (nrows b = nrows a \<or> nrows b = 1) \<and> (ncols b = ncols a \<or> ncols b = 1)
      then broadcast2 (-) a b
      else Inl ValueError)"

definition dot :: "vec \<Rightarrow> vec \<Rightarrow> real" where
  "dot u v = sum_list (map2 (*) u v)"

definition column :: "array2 \<Rightarrow> nat \<Rightarrow> vec" where
  "column a j = map (\<lambda>r. r ! j) (rows a)"

text \<open>\<^verbatim>\<open>a @ b\<close> on two-axis arrays.\<close>

definition matmul :: "array2 \<Rightarrow> array2 \<Rightarrow> array2 res" where
  "matmul a b =
     (if ncols a = nrows b
      then Inr \<lparr>ncols = ncols b,
                rows = map (\<lambda>r. map (\<lambda>j. dot r (column b j)) [0..<ncols b]) (rows a)\<rparr>
      else Inl ValueError)"

text \<open>
  \<^verbatim>\<open>numpy.array(xs)\<close> on a list or tuple of one-axis arrays: one row per element.
  The code never passes an empty list. Ragged input is refused (numpy from 1.24 on
  raises ValueError; older versions build an object array on which the later
  indexing fails).
\<close>

definition array_of_rows :: "vec list \<Rightarrow> array2 res" where
  "array_of_rows xs =
     (case xs of
        [] \<Rightarrow> Inr \<lparr>ncols = 0, rows = []\<rparr>
      | r # rs \<Rightarrow>
          if list_all (\<lambda>r'. length r' = length r) rs
          then Inr \<lparr>ncols = length r, rows = xs\<rparr>
          else Inl ValueError)"

definition transpose_array :: "array2 \<Rightarrow> array2" where
  "transpose_array a = \<lparr>ncols = nrows a, rows = map (column a) [0..<ncols a]\<rparr>"

text \<open>\<^verbatim>\<open>a[:n]\<close>: the first \<open>n\<close> rows.\<close>

definition take_rows :: "nat \<Rightarrow> array2 \<Rightarrow> array2" where
  "take_rows n a = \<lparr>ncols = ncols a, rows = take n (rows a)\<rparr>"

text \<open>A one-axis array as the single row it is broadcast as against a two-axis array.\<close>

definition as_row :: "vec \<Rightarrow> array2" where
  "as_row v = \<lparr>ncols = length v, rows = [v]\<rparr>"

definition square :: "array2 \<Rightarrow> array2" where
  "square a = \<lparr>ncols = ncols a, rows = map (map (\<lambda>x. x ^ 2)) (rows a)\<rparr>"

definition sum_all :: "array2 \<Rightarrow> real" where
  "sum_all a = sum_list (map sum_list (rows a))"

subsection \<open>float64 rounding\<close>

text \<open>
  IEEE-754 binary64, round to nearest, ties to even, on the reals: the exponent of
  \<open>\<bar>x\<bar>\<close> is found by doubling or halving, kept at \<open>-1022\<close> from below (subnormal
  numbers), and \<open>x\<close> is rounded to a multiple of the unit in the last of 53 places.
  The exponent is kept at \<open>1023\<close> from above: infinities are not represented, and the
  results are those of \<^verbatim>\<open>float64\<close> for magnitudes below \<open>2 ^ 1024\<close>.
\<close>

definition pow2 :: "int \<Rightarrow> real" where
  "pow2 k = (if 0 \<le> k then 2 ^ nat k else 1 / 2 ^ nat (- k))"

fun exponent_below :: "nat \<Rightarrow> real \<Rightarrow> int" where
  "exponent_below 0 x = 0"
| "exponent_below (Suc n) x = (if x < 1 then exponent_below n (2 * x) - 1 else 0)"

fun exponent_above :: "nat \<Rightarrow> real \<Rightarrow> int" where
  "exponent_above 0 x = 0"
| "exponent_above (Suc n) x = (if 2 \<le> x then exponent_above n (x / 2) + 1 else 0)"

definition exponent :: "real \<Rightarrow> int" where
  "exponent x = (if x < 1 then exponent_below 1022 x else exponent_above 1023 x)"

definition round_half_even :: "real \<Rightarrow> int" where
  "round_half_even m =
     (let f = \<lfloor>m\<rfloor>
      in if m - of_int f < 1 / 2 then f
         else if 1 / 2 < m - of_int f then f + 1
         else if even f then f else f + 1)"

definition f64_round :: "real \<Rightarrow> real" where
  "f64_round x =
     (if x = 0 then 0
      else let ulp = pow2 (exponent \<bar>x\<bar> - 52)
           in of_int (round_half_even (x / ulp)) * ulp)"

text \<open>The Python literal \<^verbatim>\<open>0.1\<close>.\<close>

definition tenth :: real where
  "tenth = 3602879701896397 / 36028797018963968"

text \<open>\<^verbatim>\<open>a + b\<close> and \<^verbatim>\<open>c * a\<close> on one-axis arrays, every entry rounded.\<close>

definition add1_fl :: "(real \<Rightarrow> real) \<Rightarrow> vec \<Rightarrow> vec \<Rightarrow> vec res" where
  "add1_fl rnd a b = (case add1 a b of Inl e \<Rightarrow> Inl e | Inr v \<Rightarrow> Inr (map rnd v))"

definition scale_fl :: "(real \<Rightarrow> real) \<Rightarrow> real \<Rightarrow> vec \<Rightarrow> vec" where
  "scale_fl rnd c a = map (\<lambda>x. rnd (c * x)) a"

subsection \<open>The external rigid-body model\<close>

text \<open>
  What the notebooks ask of \<^verbatim>\<open>biorbd.Model\<close>; every \<^verbatim>\<open>.to_array()\<close> is already
  applied. \<open>stateSet\<close> holds the activations of the muscle states that
  \<^verbatim>\<open>model.stateSet()\<close> hands out.
\<close>

record biorbd_model =
  nbQ :: nat
  nbMuscles :: nat
  stateSet :: "real list"
  muscularJointTorque :: "real list \<Rightarrow> vec \<Rightarrow> vec \<Rightarrow> vec"
  ForwardDynamics :: "vec \<Rightarrow> vec \<Rightarrow> vec \<Rightarrow> vec"
  markers :: "vec \<Rightarrow> vec list"
  markersJacobian :: "vec \<Rightarrow> array2 list"

subsection \<open>Forward dynamics: derivative function and integrators\<close>

text \<open>
  \<^verbatim>\<open>for a, state in zip(activation, states): state.setActivation(a)\<close>: the leading
  states receive the activations, the others keep theirs.
\<close>

definition setActivation :: "real list \<Rightarrow> real list \<Rightarrow> real list" where
  "setActivation activation states =
     take (length states) activation @ drop (length activation) states"

definition muscular_joint_torque :: "biorbd_model \<Rightarrow> real list \<Rightarrow> vec \<Rightarrow> vec \<Rightarrow> vec" where
  "muscular_joint_torque model activation q qdot =
     muscularJointTorque model (setActivation activation (stateSet model)) q qdot"

definition forward_dynamics :: "biorbd_model \<Rightarrow> vec \<Rightarrow> vec \<Rightarrow> vec \<Rightarrow> vec" where
  "forward_dynamics model q qdot tau = ForwardDynamics model q qdot tau"

definition muscular_joint_acceleration ::
  "biorbd_model \<Rightarrow> real list \<Rightarrow> vec \<Rightarrow> vec \<Rightarrow> vec" where
  "muscular_joint_acceleration model activation q qdot =
     (let tau = muscular_joint_torque model activation q qdot
      in forward_dynamics model q qdot tau)"

type_synonym 'u dot_fun = "vec \<Rightarrow> 'u \<Rightarrow> vec res"

type_synonym 'u integration_fun = "real \<Rightarrow> vec \<Rightarrow> 'u dot_fun \<Rightarrow> 'u \<Rightarrow> vec res"

definition euler :: "real \<Rightarrow> vec \<Rightarrow> 'u dot_fun \<Rightarrow> 'u \<Rightarrow> vec res" where
  "euler dt x dot_fun activation =
     bind_res (dot_fun x activation) (\<lambda>xd. add1 x (scale dt xd))"

definition x_dot :: "biorbd_model \<Rightarrow> vec \<Rightarrow> real list \<Rightarrow> vec res" where
  "x_dot model x activation =
     (let q = take (nbQ model) x;
          qdot = drop (nbQ model) x
      in bind_res (array_of_rows [qdot, muscular_joint_acceleration model activation q qdot])
           column0)"

definition rk4 :: "real \<Rightarrow> vec \<Rightarrow> 'u dot_fun \<Rightarrow> 'u \<Rightarrow> vec res" where
  "rk4 dt x dot_fun activation =
     bind_res (dot_fun x activation) (\<lambda>k1.
     bind_res (add1 x (scale (dt / 2) k1)) (\<lambda>x2.
     bind_res (dot_fun x2 activation) (\<lambda>k2.
     bind_res (add1 x (scale (dt / 2) k2)) (\<lambda>x3.
     bind_res (dot_fun x3 activation) (\<lambda>k3.
     bind_res (add1 x (scale dt k3)) (\<lambda>x4.
     bind_res (dot_fun x4 activation) (\<lambda>k4.
     bind_res (add1 k1 (scale 2 k2)) (\<lambda>s1.
     bind_res (add1 s1 (scale 2 k3)) (\<lambda>s2.
     bind_res (add1 s2 k4) (\<lambda>s3.
       add1 x (scale (dt / 6) s3)))))))))))"

text \<open>
  The two step functions with every arithmetic result rounded: \<^verbatim>\<open>dt / 2\<close> and
  \<^verbatim>\<open>dt / 6\<close> are Python floats, the products and sums are numpy's.
\<close>

definition euler_fl :: "(real \<Rightarrow> real) \<Rightarrow> real \<Rightarrow> vec \<Rightarrow> 'u dot_fun \<Rightarrow> 'u \<Rightarrow> vec res" where
  "euler_fl rnd dt x dot_fun activation =
     bind_res (dot_fun x activation) (\<lambda>xd. add1_fl rnd x (scale_fl rnd dt xd))"

definition rk4_fl :: "(real \<Rightarrow> real) \<Rightarrow> real \<Rightarrow> vec \<Rightarrow> 'u dot_fun \<Rightarrow> 'u \<Rightarrow> vec res" where
  "rk4_fl rnd dt x dot_fun activation =
     bind_res (dot_fun x activation) (\<lambda>k1.
     bind_res (add1_fl rnd x (scale_fl rnd (rnd (dt / 2)) k1)) (\<lambda>x2.
     bind_res (dot_fun x2 activation) (\<lambda>k2.
     bind_res (add1_fl rnd x (scale_fl rnd (rnd (dt / 2)) k2)) (\<lambda>x3.
     bind_res (dot_fun x3 activation) (\<lambda>k3.
     bind_res (add1_fl rnd x (scale_fl rnd dt k3)) (\<lambda>x4.
     bind_res (dot_fun x4 activation) (\<lambda>k4.
     bind_res (add1_fl rnd k1 (scale_fl rnd 2 k2)) (\<lambda>s1.
     bind_res (add1_fl rnd s1 (scale_fl rnd 2 k3)) (\<lambda>s2.
     bind_res (add1_fl rnd s2 k4) (\<lambda>s3.
       add1_fl rnd x (scale_fl rnd (rnd (dt / 6)) s3)))))))))))"

text \<open>Vector arithmetic as the specification writes it, on vectors of one length.\<close>

definition vadd :: "vec \<Rightarrow> vec \<Rightarrow> vec" where
  "vadd a b = map2 (+) a b"

definition smult :: "real \<Rightarrow> vec \<Rightarrow> vec" where
  "smult c a = map (\<lambda>x. c * x) a"

text \<open>A derivative function: it maps a state of length \<open>n\<close> to a derivative of length \<open>n\<close>.\<close>

definition derivative_on :: "nat \<Rightarrow> 'u dot_fun \<Rightarrow> 'u \<Rightarrow> bool" where
  "derivative_on n f u \<longleftrightarrow> (\<forall>y. length y = n \<longrightarrow> (\<exists>k. f y u = Inr k \<and> length k = n))"


subsection \<open>Trajectory integration driver\<close>

text \<open>
  The \<^verbatim>\<open>while\<close> loop of \<^verbatim>\<open>perform_integration\<close> on the loop state
  (\<open>time_vector\<close>, \<open>all_x\<close>, \<open>x_initial\<close>). \<open>time_vector\<close> starts as \<open>[0]\<close> and
  only grows, so \<open>last time_vector\<close> is \<^verbatim>\<open>time_vector[-1]\<close>. \<open>None\<close> is a loop that
  never ends; an exception of the step function leaves the loop as \<open>Some (Inl e)\<close>.
\<close>

partial_function (option) integration_loop ::
  "real \<Rightarrow> real \<Rightarrow> 'u dot_fun \<Rightarrow> 'u \<Rightarrow> 'u integration_fun \<Rightarrow>
   real list \<Rightarrow> vec list \<Rightarrow> vec \<Rightarrow> (real list \<times> vec list) res option" where
  "integration_loop final_time dt x_dot_fun activation integration_fun time_vector all_x x_initial =
     (if last time_vector \<le> final_time
      then (case integration_fun dt x_initial x_dot_fun activation of
              Inl e \<Rightarrow> Some (Inl e)
            | Inr x_next \<Rightarrow>
                integration_loop final_time dt x_dot_fun activation integration_fun
                  (time_vector @ [last time_vector + dt]) (all_x @ [x_next]) x_next)
      else Some (Inr (time_vector, all_x)))"

definition perform_integration ::
  "real \<Rightarrow> real \<Rightarrow> vec \<Rightarrow> 'u dot_fun \<Rightarrow> 'u \<Rightarrow> 'u integration_fun \<Rightarrow>
   (real list \<times> array2) res option" where
  "perform_integration final_time dt x_initial x_dot_fun activation integration_fun =
     (case integration_loop final_time dt x_dot_fun activation integration_fun
             [0] [x_initial] x_initial of
        None \<Rightarrow> None
      | Some (Inl e) \<Rightarrow> Some (Inl e)
      | Some (Inr (time_vector, all_x)) \<Rightarrow>
          (case array_of_rows all_x of
             Inl e \<Rightarrow> Some (Inl e)
           | Inr a \<Rightarrow> Some (Inr (time_vector, transpose_array a))))"

text \<open>
  A step function conforming to the \<open>(dt, x, derivative_fn, control) \<rightarrow> x'\<close> contract
  on states of length \<open>n\<close>: it returns a state of length \<open>n\<close>.
\<close>

definition conforming :: "nat \<Rightarrow> 'u integration_fun \<Rightarrow> real \<Rightarrow> 'u dot_fun \<Rightarrow> 'u \<Rightarrow> bool" where
  "conforming n g dt f u \<longleftrightarrow> (\<forall>y. length y = n \<longrightarrow> (\<exists>y'. g dt y f u = Inr y' \<and> length y' = n))"

text \<open>
  The state after one step where the step function returns one, and the times and
  states that \<open>m\<close> further passes through the loop append.
\<close>

definition advance :: "'u integration_fun \<Rightarrow> real \<Rightarrow> 'u dot_fun \<Rightarrow> 'u \<Rightarrow> vec \<Rightarrow> vec" where
  "advance g dt f u y = (case g dt y f u of Inl e \<Rightarrow> y | Inr y' \<Rightarrow> y')"

fun times_from :: "real \<Rightarrow> real \<Rightarrow> nat \<Rightarrow> real list" where
  "times_from t dt 0 = []"
| "times_from t dt (Suc m) = (t + dt) # times_from (t + dt) dt m"

fun states_from :: "(vec \<Rightarrow> vec) \<Rightarrow> vec \<Rightarrow> nat \<Rightarrow> vec list" where
  "states_from step x 0 = []"
| "states_from step x (Suc m) = step x # states_from step (step x) m"

text \<open>
  The driver with the time accumulated in rounded arithmetic: \<^verbatim>\<open>time_vector[-1] + dt\<close>
  is one rounded addition. \<open>accumulated rnd dt k\<close> is the time after \<open>k\<close> additions.
\<close>

partial_function (option) integration_loop_fl ::
  "(real \<Rightarrow> real) \<Rightarrow> real \<Rightarrow> real \<Rightarrow> 'u dot_fun \<Rightarrow> 'u \<Rightarrow> 'u integration_fun \<Rightarrow>
   real list \<Rightarrow> vec list \<Rightarrow> vec \<Rightarrow> (real list \<times> vec list) res option" where
  "integration_loop_fl rnd final_time dt x_dot_fun activation integration_fun time_vector all_x x_initial =
     (if last time_vector \<le> final_time
      then (case integration_fun dt x_initial x_dot_fun activation of
              Inl e \<Rightarrow> Some (Inl e)
            | Inr x_next \<Rightarrow>
                integration_loop_fl rnd final_time dt x_dot_fun activation integration_fun
                  (time_vector @ [rnd (last time_vector + dt)]) (all_x @ [x_next]) x_next)
      else Some (Inr (time_vector, all_x)))"

definition perform_integration_fl ::
  "(real \<Rightarrow> real) \<Rightarrow> real \<Rightarrow> real \<Rightarrow> vec \<Rightarrow> 'u dot_fun \<Rightarrow> 'u \<Rightarrow> 'u integration_fun \<Rightarrow>
   (real list \<times> array2) res option" where
  "perform_integration_fl rnd final_time dt x_initial x_dot_fun activation integration_fun =
     (case integration_loop_fl rnd final_time dt x_dot_fun activation integration_fun
             [0] [x_initial] x_initial of
        None \<Rightarrow> None
      | Some (Inl e) \<Rightarrow> Some (Inl e)
      | Some (Inr (time_vector, all_x)) \<Rightarrow>
          (case array_of_rows all_x of
             Inl e \<Rightarrow> Some (Inl e)
           | Inr a \<Rightarrow> Some (Inr (time_vector, transpose_array a))))"

definition accumulated :: "(real \<Rightarrow> real) \<Rightarrow> real \<Rightarrow> nat \<Rightarrow> real" where
  "accumulated rnd dt k = ((\<lambda>t. rnd (t + dt)) ^^ k) 0"

subsection \<open>Shooting cost and solver\<close>

text \<open>
  The globals \<^verbatim>\<open>n_q\<close>, \<^verbatim>\<open>final_time\<close>, \<^verbatim>\<open>dt\<close>, \<^verbatim>\<open>target_position\<close>, \<^verbatim>\<open>x_dot_fun\<close> and
  \<^verbatim>\<open>integration_method\<close> that the cost function closes over are its first arguments.
\<close>

definition lagrange_cost_function ::
  "nat \<Rightarrow> real \<Rightarrow> real \<Rightarrow> vec \<Rightarrow> vec dot_fun \<Rightarrow> vec integration_fun \<Rightarrow> vec \<Rightarrow> real res option" where
  "lagrange_cost_function n_q final_time dt target_position x_dot_fun integration_method x =
     (let states = take (n_q * 2) x;
          controls = drop (n_q * 2) x
      in case perform_integration final_time dt states x_dot_fun controls integration_method of
           None \<Rightarrow> None
         | Some (Inl e) \<Rightarrow> Some (Inl e)
         | Some (Inr (t, x_integrated)) \<Rightarrow>
             (case sub2 (take_rows n_q x_integrated) (as_row target_position) of
                Inl e \<Rightarrow> Some (Inl e)
              | Inr d \<Rightarrow> Some (Inr (sum_all (square d)))))"

text \<open>The sampled states of a returned trajectory: one per column.\<close>

definition samples :: "array2 \<Rightarrow> vec list" where
  "samples a = map (column a) [0..<ncols a]"

type_synonym bounds = "(real \<times> real) list"

type_synonym minimizer = "(vec \<Rightarrow> real res option) \<Rightarrow> vec \<Rightarrow> bounds \<Rightarrow> vec res"

text \<open>
  The cell that calls \<^verbatim>\<open>optimize.minimize(lagrange_cost_function, initial_guess, bounds=bounds)\<close>
  and splits \<^verbatim>\<open>results.x\<close> into states and controls.
\<close>

definition initial_guess :: "vec \<Rightarrow> nat \<Rightarrow> vec" where
  "initial_guess target_position n_q = (target_position @ replicate n_q 0) @ [0.1, 0.0001]"

definition bounds :: "nat \<Rightarrow> nat \<Rightarrow> bounds" where
  "bounds n_q n_muscles =
     replicate n_q (- 2 * pi, 2 * pi) @ replicate n_q (- 20 * pi, 20 * pi)
       @ replicate n_muscles (0.001, 0.999)"

text \<open>
  \<^verbatim>\<open>scipy.optimize.minimize\<close> with bounds and no constraints runs L-BFGS-B. Before the
  objective is evaluated, current releases of scipy raise ValueError for bounds with a
  lower bound above its upper bound, or that cannot be broadcast to the shape of the
  initial vector, and clip the initial vector into the bounds (\<^verbatim>\<open>numpy.clip\<close>). The
  iterations that follow are the parameter \<open>lbfgsb\<close>.
\<close>

definition clip :: "vec \<Rightarrow> bounds \<Rightarrow> vec" where
  "clip x0 bnds = map2 (\<lambda>x (lo, hi). min hi (max lo x)) x0 bnds"

definition broadcast_bounds :: "nat \<Rightarrow> bounds \<Rightarrow> bounds res" where
  "broadcast_bounds n bnds =
     (if length bnds = n then Inr bnds
      else if length bnds = 1 then Inr (replicate n (hd bnds))
      else Inl ValueError)"

definition check_bounds :: "vec \<Rightarrow> bounds \<Rightarrow> (vec \<times> bounds) res" where
  "check_bounds x0 bnds =
     (if list_ex (\<lambda>(lo, hi). hi < lo) bnds then Inl ValueError
      else case broadcast_bounds (length x0) bnds of
             Inl e \<Rightarrow> Inl e
           | Inr bnds' \<Rightarrow> Inr (clip x0 bnds', bnds'))"

definition minimize :: "minimizer \<Rightarrow> minimizer" where
  "minimize lbfgsb cost x0 bnds =
     (case check_bounds x0 bnds of
        Inl e \<Rightarrow> Inl e
      | Inr (x0', bnds') \<Rightarrow> lbfgsb cost x0' bnds')"

definition optimal_control ::
  "minimizer \<Rightarrow> nat \<Rightarrow> (vec \<Rightarrow> real res option) \<Rightarrow> vec \<Rightarrow> bounds \<Rightarrow> (vec \<times> vec) res" where
  "optimal_control lbfgsb n_q cost guess bnds =
     (case minimize lbfgsb cost guess bnds of
        Inl e \<Rightarrow> Inl e
      | Inr results_x \<Rightarrow> Inr (take (n_q * 2) results_x, drop (n_q * 2) results_x))"

text \<open>
  Invalid bounds in the specification's words: a lower bound above its upper bound, or
  a control bound (the entries after the \<open>2 * n_q\<close> state entries) that excludes the
  matching component of the initial guess.
\<close>

definition invalid_bounds :: "nat \<Rightarrow> vec \<Rightarrow> bounds \<Rightarrow> bool" where
  "invalid_bounds n_q guess bnds \<longleftrightarrow>
     list_ex (\<lambda>(lo, hi). hi < lo) bnds \<or>
     list_ex (\<lambda>(x, (lo, hi)). x < lo \<or> hi < x) (drop (n_q * 2) (zip guess bnds))"

text \<open>Iterations that stop at once and return the vector they start from.\<close>

definition no_iterations :: minimizer where
  "no_iterations cost x0 bnds = Inr x0"

subsection \<open>Inverse kinematics\<close>

definition forward_kinematics :: "biorbd_model \<Rightarrow> vec \<Rightarrow> array2" where
  "forward_kinematics model q =
     newaxis (foldl (\<lambda>markersVector marker. markersVector @ marker) [] (markers model q))"

fun concatenate_all :: "array2 \<Rightarrow> array2 list \<Rightarrow> array2 res" where
  "concatenate_all jacobianMatrix [] = Inr jacobianMatrix"
| "concatenate_all jacobianMatrix (j # js) =
     (case concatenate0 jacobianMatrix j of
        Inl e \<Rightarrow> Inl e
      | Inr jacobianMatrix' \<Rightarrow> concatenate_all jacobianMatrix' js)"

definition marker_jacobian :: "biorbd_model \<Rightarrow> vec \<Rightarrow> array2 res" where
  "marker_jacobian model q =
     concatenate_all \<lparr>ncols = nbQ model, rows = []\<rparr> (markersJacobian model q)"

text \<open>
  The arrays the caller passes are objects of a store; \<^verbatim>\<open>q_init -= q_advance\<close> writes
  into the object \<open>q_init\<close> refers to. The calls to the external collaborators are
  recorded in a log, in the order Python makes them.
\<close>

type_synonym ref = nat

type_synonym store = "ref \<Rightarrow> array2"

datatype call = Markers vec | MarkersJacobian vec | Pinv array2

text \<open>One pass through the body of the \<^verbatim>\<open>for\<close> loop.\<close>

definition ik_body ::
  "biorbd_model \<Rightarrow> (array2 \<Rightarrow> array2) \<Rightarrow> ref \<Rightarrow> ref \<Rightarrow> store \<Rightarrow> call list \<Rightarrow>
   error option \<times> store \<times> call list" where
  "ik_body model pinv real_markers q_init s calls =
     (case column0 (s q_init) of
        Inl e \<Rightarrow> (Some e, s, calls)
      | Inr q \<Rightarrow>
          let simulated_markers = forward_kinematics model q;
              calls1 = calls @ [Markers q, MarkersJacobian q]
          in (case marker_jacobian model q of
                Inl e \<Rightarrow> (Some e, s, calls1)
              | Inr jacobianMatrix \<Rightarrow>
                  let calls2 = calls1 @ [Pinv jacobianMatrix]
                  in (case sub2 simulated_markers (s real_markers) of
                        Inl e \<Rightarrow> (Some e, s, calls2)
                      | Inr residual \<Rightarrow>
                          (case matmul (pinv jacobianMatrix) residual of
                             Inl e \<Rightarrow> (Some e, s, calls2)
                           | Inr q_advance \<Rightarrow>
                               (case isub2 (s q_init) q_advance of
                                  Inl e \<Rightarrow> (Some e, s, calls2)
                                | Inr q' \<Rightarrow> (None, s(q_init := q'), calls2))))))"

fun ik_loop ::
  "biorbd_model \<Rightarrow> (array2 \<Rightarrow> array2) \<Rightarrow> ref \<Rightarrow> ref \<Rightarrow> nat \<Rightarrow> store \<Rightarrow> call list \<Rightarrow>
   error option \<times> store \<times> call list" where
  "ik_loop model pinv real_markers q_init 0 s calls = (None, s, calls)"
| "ik_loop model pinv real_markers q_init (Suc n) s calls =
     (case ik_body model pinv real_markers q_init s calls of
        (Some e, s', calls') \<Rightarrow> (Some e, s', calls')
      | (None, s', calls') \<Rightarrow> ik_loop model pinv real_markers q_init n s' calls')"

text \<open>
  \<^verbatim>\<open>range(number_of_iterations)\<close> is empty for a count below 1. The result is the
  reference \<open>q_init\<close> itself, or the exception, with the store and the log as the
  call leaves them.
\<close>

definition inverse_kinematics ::
  "biorbd_model \<Rightarrow> (array2 \<Rightarrow> array2) \<Rightarrow> ref \<Rightarrow> ref \<Rightarrow> int \<Rightarrow> store \<Rightarrow> call list \<Rightarrow>
   ref res \<times> store \<times> call list" where
  "inverse_kinematics model pinv real_markers q_init number_of_iterations s calls =
     (case ik_loop model pinv real_markers q_init (nat number_of_iterations) s calls of
        (Some e, s', calls') \<Rightarrow> (Inl e, s', calls')
      | (None, s', calls') \<Rightarrow> (Inr q_init, s', calls'))"

text \<open>
  The iteration in the specification's words: one update is
  \<open>q \<leftarrow> q - pinv (Jacobian q) \<cdot> (simulated q - observed)\<close>, and the solver applies it a
  fixed number of times.
\<close>

definition ik_update ::
  "biorbd_model \<Rightarrow> (array2 \<Rightarrow> array2) \<Rightarrow> array2 \<Rightarrow> array2 \<Rightarrow> array2 res" where
  "ik_update model pinv observed q =
     bind_res (column0 q) (\<lambda>qv.
     bind_res (marker_jacobian model qv) (\<lambda>jacobian.
     bind_res (sub2 (forward_kinematics model qv) observed) (\<lambda>residual.
     bind_res (matmul (pinv jacobian) residual) (\<lambda>step.
       isub2 q step))))"

fun iterate_res :: "nat \<Rightarrow> ('a \<Rightarrow> 'a res) \<Rightarrow> 'a \<Rightarrow> 'a res" where
  "iterate_res 0 f x = Inr x"
| "iterate_res (Suc n) f x = bind_res (f x) (iterate_res n f)"

subsection \<open>Example collaborators\<close>

text \<open>
  A model with one translational degree of freedom and one marker at \<open>(q, 2q, 0)\<close>,
  whose muscles produce the torque \<open>a\<^sub>1 - a\<^sub>2\<close> and whose acceleration is the torque.
\<close>

definition slider :: biorbd_model where
  "slider = \<lparr>nbQ = 1, nbMuscles = 2, stateSet = [0, 0],
     muscularJointTorque = (\<lambda>a q qdot. [a ! 0 - a ! 1]),
     ForwardDynamics = (\<lambda>q qdot tau. tau),
     markers = (\<lambda>q. [[q ! 0, 2 * q ! 0, 0]]),
     markersJacobian = (\<lambda>q. [\<lparr>ncols = 1, rows = [[1], [2], [0]]\<rparr>])\<rparr>"

text \<open>Two degrees of freedom, no muscle, constant acceleration \<open>(5, 6)\<close>.\<close>

definition two_dof :: biorbd_model where
  "two_dof = \<lparr>nbQ = 2, nbMuscles = 0, stateSet = [],
     muscularJointTorque = (\<lambda>a q qdot. [0, 0]),
     ForwardDynamics = (\<lambda>q qdot tau. [5, 6]),
     markers = (\<lambda>q. []),
     markersJacobian = (\<lambda>q. [])\<rparr>"

text \<open>Derivative functions that are constant in the state.\<close>

definition constant_three :: "unit dot_fun" where
  "constant_three y u = Inr [3]"

definition constant_pair :: "unit dot_fun" where
  "constant_pair y u = Inr [3 / 2, - 2]"

text \<open>The Moore-Penrose pseudo-inverse of a matrix with a single column.\<close>

definition pinv_column :: "array2 \<Rightarrow> array2" where
  "pinv_column a =
     \<lparr>ncols = nrows a,
      rows = [map (\<lambda>r. hd r / sum_list (map (\<lambda>r. hd r * hd r) (rows a))) (rows a)]\<rparr>"

text \<open>
  Stores for the examples: object 0 is the observed marker column, object 1 the initial
  guess \<open>q = 0\<close>. The observed column is the marker of \<open>q = 1\<close>, or a column of the
  wrong length 1 or 2.
\<close>

definition empty_array :: array2 where
  "empty_array = \<lparr>ncols = 0, rows = []\<rparr>"

definition store_matching :: store where
  "store_matching = (\<lambda>r. empty_array)
     (0 := \<lparr>ncols = 1, rows = [[1], [2], [0]]\<rparr>, 1 := \<lparr>ncols = 1, rows = [[0]]\<rparr>)"

definition store_one :: store where
  "store_one = (\<lambda>r. empty_array)
     (0 := \<lparr>ncols = 1, rows = [[5]]\<rparr>, 1 := \<lparr>ncols = 1, rows = [[0]]\<rparr>)"

definition store_two :: store where
  "store_two = (\<lambda>r. empty_array)
     (0 := \<lparr>ncols = 1, rows = [[5], [7]]\<rparr>, 1 := \<lparr>ncols = 1, rows = [[0]]\<rparr>)"

definition slider_jacobian :: array2 where
  "slider_jacobian = \<lparr>ncols = 1, rows = [[1], [2], [0]]\<rparr>"

section \<open>Proofs\<close>

subsection \<open>Integrators\<close>

lemma bind_res_Inr [simp]: "bind_res (Inr v) k = k v"
  by (simp add: bind_res_def)

lemma bind_res_Inl [simp]: "bind_res (Inl e) k = Inl e"
  by (simp add: bind_res_def)

lemma add1_same_length: "length a = length b \<Longrightarrow> add1 a b = Inr (vadd a b)"
  by (simp add: add1_def vadd_def)

lemma scale_smult: "scale c a = smult c a"
  by (simp add: scale_def smult_def)

lemma length_vadd [simp]: "length (vadd a b) = min (length a) (length b)"
  by (simp add: vadd_def)

lemma length_smult [simp]: "length (smult c a) = length a"
  by (simp add: smult_def)

lemma derivative_onD:
  "derivative_on n f u \<Longrightarrow> length y = n \<Longrightarrow> \<exists>k. f y u = Inr k \<and> length k = n"
  by (simp add: derivative_on_def)

lemma x_dot_slider: "x_dot slider [p, v] [a1, a2] = Inr [v, a1 - a2]"
  by (simp add: x_dot_def slider_def array_of_rows_def column0_def setActivation_def
      muscular_joint_acceleration_def muscular_joint_torque_def forward_dynamics_def)

lemma x_dot_slider_derivative: "n = 2 \<Longrightarrow> derivative_on n (x_dot slider) [a1, a2]"
  unfolding derivative_on_def
proof (intro allI impI)
  fix y :: vec assume "n = 2" "length y = n"
  then obtain p v where "y = [p, v]"
    by (metis (no_types) Suc_length_conv length_0_conv numeral_2_eq_2)
  then show "\<exists>k. x_dot slider y [a1, a2] = Inr k \<and> length k = n"
    using \<open>n = 2\<close> by (simp add: x_dot_slider)
qed

lemma euler_slider: "euler dt [p, v] (x_dot slider) [a1, a2] = Inr [p + dt * v, v + dt * (a1 - a2)]"
  by (simp add: euler_def x_dot_slider add1_def scale_def)


text \<open>
  Claim C3. Given a derivative function on states of the length of \<open>x\<close>, the rk4 step
  evaluates the four stage derivatives \<open>k1 = f(x, u)\<close>, \<open>k2 = f(x + dt/2 k1, u)\<close>,
  \<open>k3 = f(x + dt/2 k2, u)\<close>, \<open>k4 = f(x + dt k3, u)\<close> and returns
  \<open>x + dt/6 (k1 + 2 k2 + 2 k3 + k4)\<close>.
\<close>

theorem rk4_stages:
  assumes f: "derivative_on (length x) f u"
  shows "\<exists>k1 k2 k3 k4.
           f x u = Inr k1 \<and>
           f (vadd x (smult (dt / 2) k1)) u = Inr k2 \<and>
           f (vadd x (smult (dt / 2) k2)) u = Inr k3 \<and>
           f (vadd x (smult dt k3)) u = Inr k4 \<and>
           rk4 dt x f u =
             Inr (vadd x (smult (dt / 6) (vadd (vadd (vadd k1 (smult 2 k2)) (smult 2 k3)) k4)))"
proof -
  obtain k1 where k1: "f x u = Inr k1" "length k1 = length x"
    using derivative_onD [OF f, of x] by auto
  let ?x2 = "vadd x (smult (dt / 2) k1)"
  have l2: "length ?x2 = length x" using k1 by simp
  obtain k2 where k2: "f ?x2 u = Inr k2" "length k2 = length x"
    using derivative_onD [OF f l2] by auto
  let ?x3 = "vadd x (smult (dt / 2) k2)"
  have l3: "length ?x3 = length x" using k2 by simp
  obtain k3 where k3: "f ?x3 u = Inr k3" "length k3 = length x"
    using derivative_onD [OF f l3] by auto
  let ?x4 = "vadd x (smult dt k3)"
  have l4: "length ?x4 = length x" using k3 by simp
  obtain k4 where k4: "f ?x4 u = Inr k4" "length k4 = length x"
    using derivative_onD [OF f l4] by auto
  have "rk4 dt x f u =
          Inr (vadd x (smult (dt / 6) (vadd (vadd (vadd k1 (smult 2 k2)) (smult 2 k3)) k4)))"
    using k1 k2 k3 k4 by (simp add: rk4_def scale_smult add1_same_length)
  with k1 k2 k3 k4 show ?thesis by blast
qed

theorem rk4_stages_witness:
  "derivative_on (length [0, 0 :: real]) (x_dot slider) [3, 1] \<and>
   rk4 1 [0, 0] (x_dot slider) [3, 1] = Inr [1, 2]"
proof -
  have h: "derivative_on (length [0, 0 :: real]) (x_dot slider) [3, 1]"
    by (rule x_dot_slider_derivative) simp
  from rk4_stages [OF h, of 1] obtain k1 k2 k3 k4 where
    k: "x_dot slider [0, 0] [3, 1] = Inr k1"
       "x_dot slider (vadd [0, 0] (smult (1 / 2) k1)) [3, 1] = Inr k2"
       "x_dot slider (vadd [0, 0] (smult (1 / 2) k2)) [3, 1] = Inr k3"
       "x_dot slider (vadd [0, 0] (smult 1 k3)) [3, 1] = Inr k4"
    and r: "rk4 1 [0, 0] (x_dot slider) [3, 1] =
       Inr (vadd [0, 0] (smult (1 / 6) (vadd (vadd (vadd k1 (smult 2 k2)) (smult 2 k3)) k4)))"
    by blast
  have k1: "k1 = [0, 2]" using k(1) by (simp add: x_dot_slider)
  have k2: "k2 = [1, 2]" using k(2) unfolding k1 by (simp add: x_dot_slider vadd_def smult_def)
  have k3: "k3 = [1, 2]" using k(3) unfolding k2 by (simp add: x_dot_slider vadd_def smult_def)
  have k4: "k4 = [2, 2]" using k(4) unfolding k3 by (simp add: x_dot_slider vadd_def smult_def)
  have "rk4 1 [0, 0] (x_dot slider) [3, 1] = Inr [1, 2]"
    unfolding r k1 k2 k3 k4 by (simp add: vadd_def smult_def)
  with h show ?thesis by simp
qed

lemmas f64_simps = f64_round_def exponent_def round_half_even_def pow2_def Let_def

lemma exponent_below_numeral [simp]:
  "exponent_below (numeral k) x = (if x < 1 then exponent_below (pred_numeral k) (2 * x) - 1 else 0)"
  by (simp add: numeral_eq_Suc)

lemma exponent_above_numeral [simp]:
  "exponent_above (numeral k) x = (if 2 \<le> x then exponent_above (pred_numeral k) (x / 2) + 1 else 0)"
  by (simp add: numeral_eq_Suc)

lemma add1_fl_exact: "add1_fl (\<lambda>x. x) a b = add1 a b"
  by (simp add: add1_fl_def split: sum.splits)

lemma scale_fl_exact: "scale_fl (\<lambda>x. x) c a = scale c a"
  by (simp add: scale_fl_def scale_def)

lemma euler_fl_exact: "euler_fl (\<lambda>x. x) dt x f u = euler dt x f u"
  by (simp add: euler_fl_def euler_def add1_fl_exact scale_fl_exact)

lemma rk4_fl_exact: "rk4_fl (\<lambda>x. x) dt x f u = rk4 dt x f u"
  by (simp add: rk4_fl_def rk4_def add1_fl_exact scale_fl_exact)

lemma length_scale_fl [simp]: "length (scale_fl rnd c a) = length a"
  by (simp add: scale_fl_def)

lemma map2_maps: "map2 (+) (map g c) (map h c) = map (\<lambda>v. g v + h v) c"
  by (induction c) simp_all

lemma add1_fl_maps:
  "add1_fl rnd (map g c) (map h c) = Inr (map (\<lambda>v. rnd (g v + h v)) c)"
  by (simp add: add1_fl_def add1_def map2_maps o_def)

lemma add1_fl_lengths:
  "length b' = length b \<Longrightarrow> (\<exists>r. add1_fl rnd a b = Inr r) \<longleftrightarrow> (\<exists>r. add1_fl rnd a b' = Inr r)"
  by (simp add: add1_fl_def add1_def)

lemma add1_fl_not_Inr: "(\<forall>r. add1_fl rnd a b \<noteq> Inr r) \<Longrightarrow> add1_fl rnd a b = Inl ValueError"
  by (simp add: add1_fl_def add1_def split: if_splits)

lemma stage_sum_fl:
  assumes "list_all (\<lambda>v. rnd (2 * v) = 2 * v \<and> rnd (3 * v) = 3 * v \<and>
                          rnd (5 * v) = 5 * v \<and> rnd (6 * v) = 6 * v) c"
  shows "bind_res (add1_fl rnd c (scale_fl rnd 2 c)) (\<lambda>s1.
         bind_res (add1_fl rnd s1 (scale_fl rnd 2 c)) (\<lambda>s2.
         bind_res (add1_fl rnd s2 c) k)) = k (map (\<lambda>v. 6 * v) c)"
proof -
  have two: "scale_fl rnd 2 c = map (\<lambda>v. 2 * v) c"
    unfolding scale_fl_def using assms by (intro map_cong refl) (simp add: list_all_iff)
  have s1: "add1_fl rnd c (map (\<lambda>v. 2 * v) c) = Inr (map (\<lambda>v. 3 * v) c)"
  proof -
    have "add1_fl rnd (map (\<lambda>v. v) c) (map (\<lambda>v. 2 * v) c) = Inr (map (\<lambda>v. rnd (v + 2 * v)) c)"
      by (rule add1_fl_maps)
    moreover have "map (\<lambda>v. rnd (v + 2 * v)) c = map (\<lambda>v. 3 * v) c"
      using assms by (intro map_cong refl) (simp add: list_all_iff)
    ultimately show ?thesis by simp
  qed
  have s2: "add1_fl rnd (map (\<lambda>v. 3 * v) c) (map (\<lambda>v. 2 * v) c) = Inr (map (\<lambda>v. 5 * v) c)"
  proof -
    have "map (\<lambda>v. rnd (3 * v + 2 * v)) c = map (\<lambda>v. 5 * v) c"
      using assms by (intro map_cong refl) (simp add: list_all_iff)
    then show ?thesis by (simp add: add1_fl_maps)
  qed
  have s3: "add1_fl rnd (map (\<lambda>v. 5 * v) c) c = Inr (map (\<lambda>v. 6 * v) c)"
  proof -
    have "add1_fl rnd (map (\<lambda>v. 5 * v) c) (map (\<lambda>v. v) c) = Inr (map (\<lambda>v. rnd (5 * v + v)) c)"
      by (rule add1_fl_maps)
    moreover have "map (\<lambda>v. rnd (5 * v + v)) c = map (\<lambda>v. 6 * v) c"
      using assms by (intro map_cong refl) (simp add: list_all_iff)
    ultimately show ?thesis by simp
  qed
  show ?thesis by (simp add: two s1 s2 s3)
qed

text \<open>
  Claim C10, as the code has it. For a derivative function that is constant in the
  state, \<open>f(y, u) = c\<close>, the rk4 step and the euler step coincide, both being
  \<open>x + dt c\<close> as the arithmetic at hand computes it (or the same numpy error),
  whenever that arithmetic forms \<open>dt / 6\<close> and the stage sum
  \<open>c + 2 c + 2 c + c\<close> without rounding; exact arithmetic always does. On
  \<^verbatim>\<open>float64\<close> in general the two steps round different expressions.
\<close>

theorem rk4_euler_constant:
  assumes f: "\<forall>y. f y u = Inr c"
    and sixth: "rnd (dt / 6) = dt / 6"
    and sums: "list_all (\<lambda>v. rnd (2 * v) = 2 * v \<and> rnd (3 * v) = 3 * v \<and>
                            rnd (5 * v) = 5 * v \<and> rnd (6 * v) = 6 * v) c"
  shows "rk4_fl rnd dt x f u = euler_fl rnd dt x f u \<and>
         euler_fl rnd dt x f u = add1_fl rnd x (scale_fl rnd dt c)"
proof -
  have e: "euler_fl rnd dt x f u = add1_fl rnd x (scale_fl rnd dt c)"
    using f by (simp add: euler_fl_def)
  have six: "scale_fl rnd (dt / 6) (map (\<lambda>v. 6 * v) c) = scale_fl rnd dt c"
    by (simp add: scale_fl_def o_def)
  have r: "rk4_fl rnd dt x f u = add1_fl rnd x (scale_fl rnd dt c)"
  proof (cases "\<exists>r. add1_fl rnd x (scale_fl rnd dt c) = Inr r")
    case True
    have "\<exists>r. add1_fl rnd x (scale_fl rnd (rnd (dt / 2)) c) = Inr r"
      using True add1_fl_lengths [of "scale_fl rnd (rnd (dt / 2)) c" "scale_fl rnd dt c" rnd x] by simp
    then obtain x2 where x2: "add1_fl rnd x (scale_fl rnd (rnd (dt / 2)) c) = Inr x2" by blast
    obtain x4 where x4: "add1_fl rnd x (scale_fl rnd dt c) = Inr x4" using True by blast
    show ?thesis
      unfolding rk4_fl_def using f x2
      by (simp add: x4 stage_sum_fl [OF sums] sixth six)
  next
    case False
    then have a: "add1_fl rnd x (scale_fl rnd dt c) = Inl ValueError" by (simp add: add1_fl_not_Inr)
    have "\<forall>r. add1_fl rnd x (scale_fl rnd (rnd (dt / 2)) c) \<noteq> Inr r"
      using False add1_fl_lengths [of "scale_fl rnd (rnd (dt / 2)) c" "scale_fl rnd dt c" rnd x] by simp
    then have "add1_fl rnd x (scale_fl rnd (rnd (dt / 2)) c) = Inl ValueError" by (rule add1_fl_not_Inr)
    then show ?thesis using f a by (simp add: rk4_fl_def)
  qed
  show ?thesis using e r by simp
qed

theorem rk4_euler_constant_witness:
  "(\<forall>y. constant_pair y () = Inr [3 / 2, - 2]) \<and>
   f64_round (3 / 4 / 6) = 3 / 4 / 6 \<and>
   list_all (\<lambda>v. f64_round (2 * v) = 2 * v \<and> f64_round (3 * v) = 3 * v \<and>
                  f64_round (5 * v) = 5 * v \<and> f64_round (6 * v) = 6 * v) [3 / 2, - 2] \<and>
   rk4_fl f64_round (3 / 4) [tenth, 1] constant_pair () =
     Inr [2758454771764429 / 2251799813685248, - 1 / 2] \<and>
   euler_fl f64_round (3 / 4) [tenth, 1] constant_pair () =
     Inr [2758454771764429 / 2251799813685248, - 1 / 2]"
proof -
  have f: "\<forall>y. constant_pair y () = Inr [3 / 2, - 2]" by (simp add: constant_pair_def)
  have sixth: "f64_round (3 / 4 / 6) = 3 / 4 / 6" by (simp add: f64_simps)
  have sums: "list_all (\<lambda>v. f64_round (2 * v) = 2 * v \<and> f64_round (3 * v) = 3 * v \<and>
                  f64_round (5 * v) = 5 * v \<and> f64_round (6 * v) = 6 * v) [3 / 2, - 2]"
    by (simp add: f64_simps)
  have e: "euler_fl f64_round (3 / 4) [tenth, 1] constant_pair () =
     Inr [2758454771764429 / 2251799813685248, - 1 / 2]"
    by (simp add: euler_fl_def constant_pair_def add1_fl_def add1_def scale_fl_def f64_simps tenth_def)
  from rk4_euler_constant [where f = constant_pair and u = "()" and c = "[3 / 2, - 2]"
      and rnd = f64_round and dt = "3 / 4" and x = "[tenth, 1]", OF f sixth sums] e
  have "rk4_fl f64_round (3 / 4) [tenth, 1] constant_pair () =
     Inr [2758454771764429 / 2251799813685248, - 1 / 2]" by simp
  with f sixth sums e show ?thesis by blast
qed

text \<open>
  On \<^verbatim>\<open>float64\<close> with \<open>dt = 0.1\<close>, \<open>x = 0\<close> and \<open>c = 3\<close> the rk4 step returns
  \<open>0.3\<close> and the euler step \<open>0.30000000000000004\<close>.
\<close>

theorem rk4_euler_constant_counterexample:
  "rk4_fl f64_round tenth [0] constant_three () = Inr [5404319552844595 / 18014398509481984] \<and>
   euler_fl f64_round tenth [0] constant_three () = Inr [5404319552844596 / 18014398509481984] \<and>
   rk4_fl f64_round tenth [0] constant_three () \<noteq> euler_fl f64_round tenth [0] constant_three ()"
  by (simp add: rk4_fl_def euler_fl_def constant_three_def add1_fl_def add1_def scale_fl_def
      f64_simps tenth_def)

text \<open>
  Claim C6. \<open>x_dot\<close> is to return the velocity part of \<open>x\<close> followed by the
  generalized acceleration, \<open>2 n_q\<close> entries in all. With two degrees of freedom the
  code returns two entries, the first velocity and the first acceleration:
  \<^verbatim>\<open>numpy.array((qdot, qddot))[:, 0]\<close> keeps column 0 of the two rows. Both
  integrators then fail to add the state of length 4 and the derivative of length 2.
\<close>

theorem x_dot_two_dof:
  "x_dot two_dof [1, 2, 3, 4] [] = Inr [3, 5] \<and>
   euler (1 / 10) [1, 2, 3, 4] (x_dot two_dof) [] = Inl ValueError \<and>
   rk4 (1 / 10) [1, 2, 3, 4] (x_dot two_dof) [] = Inl ValueError"
proof -
  have x: "x_dot two_dof [1, 2, 3, 4] [] = Inr [3, 5]"
    by (simp add: x_dot_def two_dof_def array_of_rows_def column0_def
        muscular_joint_acceleration_def muscular_joint_torque_def forward_dynamics_def)
  then show ?thesis
    by (simp add: euler_def rk4_def add1_def scale_def)
qed

text \<open>With one degree of freedom column 0 is the whole of both rows.\<close>

lemma x_dot_single_dof:
  assumes "nbQ model = 1" and "length x = 2"
    and "length (muscular_joint_acceleration model a (take 1 x) (drop 1 x)) = 1"
  shows "x_dot model x a = Inr (drop 1 x @ muscular_joint_acceleration model a (take 1 x) (drop 1 x))"
proof -
  obtain p v where x: "x = [p, v]"
    using assms(2) by (metis (no_types) Suc_length_conv length_0_conv numeral_2_eq_2)
  obtain acc where acc: "muscular_joint_acceleration model a [p] [v] = [acc]"
    using assms(3) unfolding x
    by (cases "muscular_joint_acceleration model a [p] [v]") auto
  show ?thesis
    using assms(1) by (simp add: x_dot_def x acc array_of_rows_def column0_def)
qed

subsection \<open>Trajectory integration driver\<close>

lemma conformingD:
  "conforming n g dt f u \<Longrightarrow> length y = n \<Longrightarrow> g dt y f u = Inr (advance g dt f u y) \<and> length (advance g dt f u y) = n"
  by (auto simp: conforming_def advance_def)


lemma length_times_from [simp]: "length (times_from t dt m) = m"
  by (induction m arbitrary: t) simp_all

lemma length_states_from [simp]: "length (states_from step x m) = m"
  by (induction m arbitrary: x) simp_all


lemma nth_states_from: "i < m \<Longrightarrow> states_from step x m ! i = (step ^^ Suc i) x"
proof (induction m arbitrary: x i)
  case 0 then show ?case by simp
next
  case (Suc m)
  show ?case
  proof (cases i)
    case 0 then show ?thesis by simp
  next
    case (Suc j)
    then have "j < m" using Suc.prems by simp
    from Suc.IH [OF this, of "step x"] Suc show ?thesis by (simp add: funpow_swap1)
  qed
qed

lemma funpow_advance_length:
  "conforming n g dt f u \<Longrightarrow> length x = n \<Longrightarrow> length ((advance g dt f u ^^ k) x) = n"
  by (induction k) (simp_all add: conformingD)

lemma funpow_advance_step:
  "conforming n g dt f u \<Longrightarrow> length x = n \<Longrightarrow>
   g dt ((advance g dt f u ^^ k) x) f u = Inr ((advance g dt f u ^^ Suc k) x)"
  using conformingD [of n g dt f u "(advance g dt f u ^^ k) x"] funpow_advance_length [of n g dt f u x k]
  by simp


lemma column_rows: "length r = c \<Longrightarrow> map (\<lambda>i. r ! i) [0..<c] = r"
  by (auto simp: list_eq_iff_nth_eq)

lemma samples_transpose:
  assumes "list_all (\<lambda>r. length r = c) xs"
  shows "samples (transpose_array \<lparr>ncols = c, rows = xs\<rparr>) = xs"
proof (rule nth_equalityI)
  show "length (samples (transpose_array \<lparr>ncols = c, rows = xs\<rparr>)) = length xs"
    by (simp add: samples_def transpose_array_def nrows_def)
next
  fix j assume "j < length (samples (transpose_array \<lparr>ncols = c, rows = xs\<rparr>))"
  then have j: "j < length xs"
    by (simp add: samples_def transpose_array_def nrows_def)
  then have len: "length (xs ! j) = c" using assms by (simp add: list_all_length)
  have "samples (transpose_array \<lparr>ncols = c, rows = xs\<rparr>) ! j = map (\<lambda>i. xs ! j ! i) [0..<c]"
    using j by (simp add: samples_def transpose_array_def column_def nrows_def o_def)
  also have "\<dots> = xs ! j" by (rule column_rows [OF len])
  finally show "samples (transpose_array \<lparr>ncols = c, rows = xs\<rparr>) ! j = xs ! j" .
qed

lemma states_from_length:
  "conforming n g dt f u \<Longrightarrow> length x = n \<Longrightarrow>
   list_all (\<lambda>r. length r = n) (states_from (advance g dt f u) x m)"
  by (induction m arbitrary: x) (simp_all add: conformingD)


lemma trajectory_samples:
  assumes g: "conforming (length x0) g dt f u"
  shows "samples (transpose_array \<lparr>ncols = length x0,
            rows = x0 # states_from (advance g dt f u) x0 m\<rparr>) =
         x0 # states_from (advance g dt f u) x0 m"
  by (rule samples_transpose) (use states_from_length [OF g, of x0 m] in simp)

lemma nth_trajectory:
  "k \<le> m \<Longrightarrow> (x0 # states_from step x0 m) ! k = (step ^^ k) x0"
  by (cases k) (simp_all add: nth_states_from del: funpow.simps)


lemma grid_bounds:
  assumes ft: "0 \<le> final_time" and dt: "0 < dt"
  shows "real (nat \<lfloor>final_time / dt\<rfloor>) * dt \<le> final_time"
    and "final_time < real (Suc (nat \<lfloor>final_time / dt\<rfloor>)) * dt"
proof -
  have "0 \<le> \<lfloor>final_time / dt\<rfloor>" using ft dt by simp
  then have rm: "real (nat \<lfloor>final_time / dt\<rfloor>) = of_int \<lfloor>final_time / dt\<rfloor>" by simp
  show "real (nat \<lfloor>final_time / dt\<rfloor>) * dt \<le> final_time"
    unfolding rm using floor_divide_lower [OF dt, of final_time] by simp
  show "final_time < real (Suc (nat \<lfloor>final_time / dt\<rfloor>)) * dt"
    using floor_divide_upper [OF dt, of final_time] rm by (simp add: algebra_simps)
qed


lemma accumulated_0 [simp]: "accumulated rnd dt 0 = 0"
  by (simp add: accumulated_def)

lemma accumulated_Suc: "accumulated rnd dt (Suc k) = rnd (accumulated rnd dt k + dt)"
  by (simp add: accumulated_def)

lemma integration_loop_fl_run:
  assumes g: "conforming n g dt f u"
  shows "length x = n \<Longrightarrow> last ts = accumulated rnd dt k \<Longrightarrow>
         (\<forall>j. k \<le> j \<and> j < k + m \<longrightarrow> accumulated rnd dt j \<le> final_time) \<Longrightarrow>
         final_time < accumulated rnd dt (k + m) \<Longrightarrow>
         integration_loop_fl rnd final_time dt f u g ts xs x =
           Some (Inr (ts @ map (accumulated rnd dt) [Suc k..<Suc (k + m)],
                      xs @ states_from (advance g dt f u) x m))"
proof (induction m arbitrary: ts xs x k)
  case 0
  then have "\<not> last ts \<le> final_time" by simp
  then show ?case
    by (subst integration_loop_fl.simps) simp
next
  case (Suc m)
  have le: "last ts \<le> final_time" using Suc.prems(2,3) by simp
  have st: "g dt x f u = Inr (advance g dt f u x)" "length (advance g dt f u x) = n"
    using conformingD [OF g] Suc.prems(1) by simp_all
  let ?ts = "ts @ [rnd (last ts + dt)]"
  have a: "last ?ts = accumulated rnd dt (Suc k)"
    using Suc.prems(2) by (simp add: accumulated_Suc)
  have b: "\<forall>j. Suc k \<le> j \<and> j < Suc k + m \<longrightarrow> accumulated rnd dt j \<le> final_time"
    using Suc.prems(3) by simp
  have c: "final_time < accumulated rnd dt (Suc k + m)"
    using Suc.prems(4) by simp
  have ih: "integration_loop_fl rnd final_time dt f u g ?ts (xs @ [advance g dt f u x]) (advance g dt f u x) =
           Some (Inr (?ts @ map (accumulated rnd dt) [Suc (Suc k)..<Suc (Suc k + m)],
                      (xs @ [advance g dt f u x]) @ states_from (advance g dt f u) (advance g dt f u x) m))"
    by (rule Suc.IH [OF st(2) a b c])
  have up: "[Suc k..<Suc (k + Suc m)] = Suc k # [Suc (Suc k)..<Suc (Suc k + m)]"
    by (simp add: upt_rec)
  show ?case
    apply (subst integration_loop_fl.simps)
    apply (simp only: le st if_True sum.case)
    apply (subst ih)
    apply (simp only: up list.map a [symmetric])
    apply simp
    done
qed

lemma first_past:
  assumes "final_time < accumulated rnd dt n"
  obtains m where "m \<le> n" and "final_time < accumulated rnd dt m"
    and "\<forall>j < m. accumulated rnd dt j \<le> final_time"
proof -
  let ?P = "\<lambda>m. final_time < accumulated rnd dt m"
  let ?m = "LEAST m. ?P m"
  have 1: "?P ?m" using assms by (rule LeastI)
  have 2: "?m \<le> n" using assms by (rule Least_le)
  have 3: "\<forall>j < ?m. accumulated rnd dt j \<le> final_time"
    using not_less_Least [of _ ?P] by (auto simp: not_less)
  from 2 1 3 show ?thesis by (rule that)
qed

lemma perform_integration_fl_run:
  assumes g: "conforming (length x0) g dt f u"
    and m: "final_time < accumulated rnd dt m" "\<forall>j < m. accumulated rnd dt j \<le> final_time"
  shows "perform_integration_fl rnd final_time dt x0 f u g =
           Some (Inr (map (accumulated rnd dt) [0..<Suc m],
                      transpose_array \<lparr>ncols = length x0,
                        rows = x0 # states_from (advance g dt f u) x0 m\<rparr>))"
proof -
  have run: "integration_loop_fl rnd final_time dt f u g [0] [x0] x0 =
           Some (Inr ([0] @ map (accumulated rnd dt) [Suc 0..<Suc (0 + m)],
                      [x0] @ states_from (advance g dt f u) x0 m))"
    by (rule integration_loop_fl_run [OF g]) (use m in simp_all)
  have ts: "[0] @ map (accumulated rnd dt) [Suc 0..<Suc (0 + m)] = map (accumulated rnd dt) [0..<Suc m]"
    by (simp add: upt_rec [of 0])
  have all: "list_all (\<lambda>r. length r = length x0) (states_from (advance g dt f u) x0 m)"
    by (rule states_from_length [OF g refl])
  have arr: "array_of_rows (x0 # states_from (advance g dt f u) x0 m) =
          Inr \<lparr>ncols = length x0, rows = x0 # states_from (advance g dt f u) x0 m\<rparr>"
    using all unfolding array_of_rows_def by simp
  show ?thesis
    unfolding perform_integration_fl_def run ts using arr by simp
qed

lemma loop_fl_of_exact:
  assumes "integration_loop final_time dt f u g ts xs x = Some r"
  shows "integration_loop_fl (\<lambda>t. t) final_time dt f u g ts xs x = Some r"
proof (rule integration_loop.raw_induct
    [where P = "\<lambda>final_time dt f u g ts xs x r.
       integration_loop_fl (\<lambda>t. t) final_time dt f u g ts xs x = Some r", OF _ assms])
  fix loop final_time dt f u g ts xs x r
  assume ih: "\<And>final_time dt f u g ts xs x r.
      loop final_time dt f u g ts xs x = Some r \<Longrightarrow>
      integration_loop_fl (\<lambda>t. t) final_time dt f u g ts xs x = Some r"
    and body: "(if last ts \<le> final_time
      then case g dt x f u of Inl e \<Rightarrow> Some (Inl e)
           | Inr x_next \<Rightarrow> loop final_time dt f u g (ts @ [last ts + dt]) (xs @ [x_next]) x_next
      else Some (Inr (ts, xs))) = Some r"
  show "integration_loop_fl (\<lambda>t. t) final_time dt f u g ts xs x = Some r"
    using body by (subst integration_loop_fl.simps) (auto split: if_splits sum.splits intro: ih)
qed

lemma loop_exact_of_fl:
  assumes "integration_loop_fl (\<lambda>t. t) final_time dt f u g ts xs x = Some r"
  shows "integration_loop final_time dt f u g ts xs x = Some r"
proof -
  have "rnd = (\<lambda>t. t) \<longrightarrow> integration_loop final_time dt f u g ts xs x = Some r"
    if "integration_loop_fl rnd final_time dt f u g ts xs x = Some r" for rnd
  proof (rule integration_loop_fl.raw_induct
    [where P = "\<lambda>rnd final_time dt f u g ts xs x r.
       rnd = (\<lambda>t. t) \<longrightarrow> integration_loop final_time dt f u g ts xs x = Some r", OF _ that])
    fix loop and rnd :: "real \<Rightarrow> real" and final_time dt f u g ts xs x r
    assume ih: "\<And>rnd final_time dt f u g ts xs x r.
        loop rnd final_time dt f u g ts xs x = Some r \<Longrightarrow>
        rnd = (\<lambda>t. t) \<longrightarrow> integration_loop final_time dt f u g ts xs x = Some r"
      and body: "(if last ts \<le> final_time
        then case g dt x f u of Inl e \<Rightarrow> Some (Inl e)
             | Inr x_next \<Rightarrow> loop rnd final_time dt f u g (ts @ [rnd (last ts + dt)]) (xs @ [x_next]) x_next
        else Some (Inr (ts, xs))) = Some r"
    show "rnd = (\<lambda>t. t) \<longrightarrow> integration_loop final_time dt f u g ts xs x = Some r"
      using body by (subst integration_loop.simps) (auto split: if_splits sum.splits dest: ih)
  qed
  from this [OF assms] show ?thesis by simp
qed

lemma integration_loop_fl_exact:
  "integration_loop_fl (\<lambda>t. t) final_time dt f u g ts xs x = integration_loop final_time dt f u g ts xs x"
proof (cases "integration_loop final_time dt f u g ts xs x")
  case None
  then show ?thesis using loop_exact_of_fl [of final_time dt f u g ts xs x]
    by (cases "integration_loop_fl (\<lambda>t. t) final_time dt f u g ts xs x") auto
next
  case (Some r)
  then show ?thesis by (simp add: loop_fl_of_exact)
qed

lemma perform_integration_fl_exact:
  "perform_integration_fl (\<lambda>t. t) final_time dt x0 f u g = perform_integration final_time dt x0 f u g"
  by (simp add: perform_integration_fl_def perform_integration_def integration_loop_fl_exact)

lemma accumulated_exact: "accumulated (\<lambda>t. t) dt k = real k * dt"
  by (induction k) (simp_all add: accumulated_Suc algebra_simps)

lemma accumulated_exact_past:
  assumes "0 \<le> final_time" and "0 < dt"
  shows "final_time < accumulated (\<lambda>t. t) dt (Suc (nat \<lfloor>final_time / dt\<rfloor>))"
  unfolding accumulated_exact by (rule grid_bounds(2) [OF assms])

lemma euler_fl_slider:
  "euler_fl rnd dt [p, v] (x_dot slider) [a1, a2] =
     Inr [rnd (p + rnd (dt * v)), rnd (v + rnd (dt * (a1 - a2)))]"
  by (simp add: euler_fl_def x_dot_slider add1_fl_def add1_def scale_fl_def)

lemma euler_fl_slider_conforming: "n = 2 \<Longrightarrow> conforming n (euler_fl rnd) dt (x_dot slider) [a1, a2]"
  unfolding conforming_def
proof (intro allI impI)
  fix y :: vec assume "n = 2" "length y = n"
  then obtain p v where "y = [p, v]"
    by (metis (no_types) Suc_length_conv length_0_conv numeral_2_eq_2)
  then show "\<exists>y'. euler_fl rnd dt y (x_dot slider) [a1, a2] = Inr y' \<and> length y' = n"
    using \<open>n = 2\<close> by (simp add: euler_fl_slider)
qed

lemma accumulated_tenth:
  "accumulated f64_round tenth 3 = 1351079888211149 / 4503599627370496"
  by (simp add: accumulated_def numeral_3_eq_3 f64_simps tenth_def)

lemma run_fl_three_tenths:
  "perform_integration_fl f64_round (5404319552844595 / 18014398509481984) tenth [1, 0]
     (x_dot slider) [3, 1] (euler_fl f64_round) =
   Some (Inr ([0, 3602879701896397 / 36028797018963968, 3602879701896397 / 18014398509481984,
               1351079888211149 / 4503599627370496],
              \<lparr>ncols = 4,
               rows = [[1, 1, 2296835809958953 / 2251799813685248,
                        2386907802506363 / 2251799813685248],
                       [0, 3602879701896397 / 18014398509481984,
                        3602879701896397 / 9007199254740992,
                        1351079888211149 / 2251799813685248]]\<rparr>))"
  by (simp add: perform_integration_fl_def integration_loop_fl.simps euler_fl_slider array_of_rows_def
      transpose_array_def column_def nrows_def upt_rec f64_simps tenth_def)

lemma accumulated_step:
  "accumulated rnd dt k = v \<Longrightarrow> Suc k = n \<Longrightarrow> accumulated rnd dt n = rnd (v + dt)"
  by (auto simp: accumulated_Suc)

lemma accumulated_below:
  "\<forall>j < k. accumulated rnd dt j \<le> final_time \<Longrightarrow> accumulated rnd dt k = v \<Longrightarrow>
   v \<le> final_time \<Longrightarrow> Suc k = n \<Longrightarrow> \<forall>j < n. accumulated rnd dt j \<le> final_time"
  by (auto simp: less_Suc_eq)

lemma accumulated_twenty:
  "accumulated f64_round tenth 20 = 4503599627370497 / 2251799813685248 \<and>
   (\<forall>j < 20. accumulated f64_round tenth j \<le> 2)"
proof -
  have a1: "accumulated f64_round tenth 1 = 3602879701896397 / 36028797018963968"
    by (simp add: accumulated_def f64_simps tenth_def)
  have a2: "accumulated f64_round tenth 2 = 3602879701896397 / 18014398509481984"
  proof -
    have "accumulated f64_round tenth 2 = f64_round (3602879701896397 / 36028797018963968 + tenth)"
      by (rule accumulated_step [OF a1]) simp
    also have "\<dots> = 3602879701896397 / 18014398509481984"
      by (simp add: f64_simps tenth_def)
    finally show ?thesis .
  qed
  have a3: "accumulated f64_round tenth 3 = 1351079888211149 / 4503599627370496"
  proof -
    have "accumulated f64_round tenth 3 = f64_round (3602879701896397 / 18014398509481984 + tenth)"
      by (rule accumulated_step [OF a2]) simp
    also have "\<dots> = 1351079888211149 / 4503599627370496"
      by (simp add: f64_simps tenth_def)
    finally show ?thesis .
  qed
  have a4: "accumulated f64_round tenth 4 = 3602879701896397 / 9007199254740992"
  proof -
    have "accumulated f64_round tenth 4 = f64_round (1351079888211149 / 4503599627370496 + tenth)"
      by (rule accumulated_step [OF a3]) simp
    also have "\<dots> = 3602879701896397 / 9007199254740992"
      by (simp add: f64_simps tenth_def)
    finally show ?thesis .
  qed
  have a5: "accumulated f64_round tenth 5 = 1 / 2"
  proof -
    have "accumulated f64_round tenth 5 = f64_round (3602879701896397 / 9007199254740992 + tenth)"
      by (rule accumulated_step [OF a4]) simp
    also have "\<dots> = 1 / 2"
      by (simp add: f64_simps tenth_def)
    finally show ?thesis .
  qed
  have a6: "accumulated f64_round tenth 6 = 5404319552844595 / 9007199254740992"
  proof -
    have "accumulated f64_round tenth 6 = f64_round (1 / 2 + tenth)"
      by (rule accumulated_step [OF a5]) simp
    also have "\<dots> = 5404319552844595 / 9007199254740992"
      by (simp add: f64_simps tenth_def)
    finally show ?thesis .
  qed
  have a7: "accumulated f64_round tenth 7 = 3152519739159347 / 4503599627370496"
  proof -
    have "accumulated f64_round tenth 7 = f64_round (5404319552844595 / 9007199254740992 + tenth)"
      by (rule accumulated_step [OF a6]) simp
    also have "\<dots> = 3152519739159347 / 4503599627370496"
      by (simp add: f64_simps tenth_def)
    finally show ?thesis .
  qed
  have a8: "accumulated f64_round tenth 8 = 7205759403792793 / 9007199254740992"
  proof -
    have "accumulated f64_round tenth 8 = f64_round (3152519739159347 / 4503599627370496 + tenth)"
      by (rule accumulated_step [OF a7]) simp
    also have "\<dots> = 7205759403792793 / 9007199254740992"
      by (simp add: f64_simps tenth_def)
    finally show ?thesis .
  qed
  have a9: "accumulated f64_round tenth 9 = 2026619832316723 / 2251799813685248"
  proof -
    have "accumulated f64_round tenth 9 = f64_round (7205759403792793 / 9007199254740992 + tenth)"
      by (rule accumulated_step [OF a8]) simp
    also have "\<dots> = 2026619832316723 / 2251799813685248"
      by (simp add: f64_simps tenth_def)
    finally show ?thesis .
  qed
  have a10: "accumulated f64_round tenth 10 = 9007199254740991 / 9007199254740992"
  proof -
    have "accumulated f64_round tenth 10 = f64_round (2026619832316723 / 2251799813685248 + tenth)"
      by (rule accumulated_step [OF a9]) simp
    also have "\<dots> = 9007199254740991 / 9007199254740992"
      by (simp add: f64_simps tenth_def)
    finally show ?thesis .
  qed
  have a11: "accumulated f64_round tenth 11 = 4953959590107545 / 4503599627370496"
  proof -
    have "accumulated f64_round tenth 11 = f64_round (9007199254740991 / 9007199254740992 + tenth)"
      by (rule accumulated_step [OF a10]) simp
    also have "\<dots> = 4953959590107545 / 4503599627370496"
      by (simp add: f64_simps tenth_def)
    finally show ?thesis .
  qed
  have a12: "accumulated f64_round tenth 12 = 5404319552844595 / 4503599627370496"
  proof -
    have "accumulated f64_round tenth 12 = f64_round (4953959590107545 / 4503599627370496 + tenth)"
      by (rule accumulated_step [OF a11]) simp
    also have "\<dots> = 5404319552844595 / 4503599627370496"
      by (simp add: f64_simps tenth_def)
    finally show ?thesis .
  qed
  have a13: "accumulated f64_round tenth 13 = 5854679515581645 / 4503599627370496"
  proof -
    have "accumulated f64_round tenth 13 = f64_round (5404319552844595 / 4503599627370496 + tenth)"
      by (rule accumulated_step [OF a12]) simp
    also have "\<dots> = 5854679515581645 / 4503599627370496"
      by (simp add: f64_simps tenth_def)
    finally show ?thesis .
  qed
  have a14: "accumulated f64_round tenth 14 = 6305039478318695 / 4503599627370496"
  proof -
    have "accumulated f64_round tenth 14 = f64_round (5854679515581645 / 4503599627370496 + tenth)"
      by (rule accumulated_step [OF a13]) simp
    also have "\<dots> = 6305039478318695 / 4503599627370496"
      by (simp add: f64_simps tenth_def)
    finally show ?thesis .
  qed
  have a15: "accumulated f64_round tenth 15 = 6755399441055745 / 4503599627370496"
  proof -
    have "accumulated f64_round tenth 15 = f64_round (6305039478318695 / 4503599627370496 + tenth)"
      by (rule accumulated_step [OF a14]) simp
    also have "\<dots> = 6755399441055745 / 4503599627370496"
      by (simp add: f64_simps tenth_def)
    finally show ?thesis .
  qed
  have a16: "accumulated f64_round tenth 16 = 7205759403792795 / 4503599627370496"
  proof -
    have "accumulated f64_round tenth 16 = f64_round (6755399441055745 / 4503599627370496 + tenth)"
      by (rule accumulated_step [OF a15]) simp
    also have "\<dots> = 7205759403792795 / 4503599627370496"
      by (simp add: f64_simps tenth_def)
    finally show ?thesis .
  qed
  have a17: "accumulated f64_round tenth 17 = 7656119366529845 / 4503599627370496"
  proof -
    have "accumulated f64_round tenth 17 = f64_round (7205759403792795 / 4503599627370496 + tenth)"
      by (rule accumulated_step [OF a16]) simp
    also have "\<dots> = 7656119366529845 / 4503599627370496"
      by (simp add: f64_simps tenth_def)
    finally show ?thesis .
  qed
  have a18: "accumulated f64_round tenth 18 = 8106479329266895 / 4503599627370496"
  proof -
    have "accumulated f64_round tenth 18 = f64_round (7656119366529845 / 4503599627370496 + tenth)"
      by (rule accumulated_step [OF a17]) simp
    also have "\<dots> = 8106479329266895 / 4503599627370496"
      by (simp add: f64_simps tenth_def)
    finally show ?thesis .
  qed
  have a19: "accumulated f64_round tenth 19 = 8556839292003945 / 4503599627370496"
  proof -
    have "accumulated f64_round tenth 19 = f64_round (8106479329266895 / 4503599627370496 + tenth)"
      by (rule accumulated_step [OF a18]) simp
    also have "\<dots> = 8556839292003945 / 4503599627370496"
      by (simp add: f64_simps tenth_def)
    finally show ?thesis .
  qed
  have a20: "accumulated f64_round tenth 20 = 4503599627370497 / 2251799813685248"
  proof -
    have "accumulated f64_round tenth 20 = f64_round (8556839292003945 / 4503599627370496 + tenth)"
      by (rule accumulated_step [OF a19]) simp
    also have "\<dots> = 4503599627370497 / 2251799813685248"
      by (simp add: f64_simps tenth_def)
    finally show ?thesis .
  qed
  have b1: "\<forall>j < 1. accumulated f64_round tenth j \<le> 2" by simp
  have b2: "\<forall>j < 2. accumulated f64_round tenth j \<le> 2"
    by (rule accumulated_below [OF b1 a1]) simp_all
  have b3: "\<forall>j < 3. accumulated f64_round tenth j \<le> 2"
    by (rule accumulated_below [OF b2 a2]) simp_all
  have b4: "\<forall>j < 4. accumulated f64_round tenth j \<le> 2"
    by (rule accumulated_below [OF b3 a3]) simp_all
  have b5: "\<forall>j < 5. accumulated f64_round tenth j \<le> 2"
    by (rule accumulated_below [OF b4 a4]) simp_all
  have b6: "\<forall>j < 6. accumulated f64_round tenth j \<le> 2"
    by (rule accumulated_below [OF b5 a5]) simp_all
  have b7: "\<forall>j < 7. accumulated f64_round tenth j \<le> 2"
    by (rule accumulated_below [OF b6 a6]) simp_all
  have b8: "\<forall>j < 8. accumulated f64_round tenth j \<le> 2"
    by (rule accumulated_below [OF b7 a7]) simp_all
  have b9: "\<forall>j < 9. accumulated f64_round tenth j \<le> 2"
    by (rule accumulated_below [OF b8 a8]) simp_all
  have b10: "\<forall>j < 10. accumulated f64_round tenth j \<le> 2"
    by (rule accumulated_below [OF b9 a9]) simp_all
  have b11: "\<forall>j < 11. accumulated f64_round tenth j \<le> 2"
    by (rule accumulated_below [OF b10 a10]) simp_all
  have b12: "\<forall>j < 12. accumulated f64_round tenth j \<le> 2"
    by (rule accumulated_below [OF b11 a11]) simp_all
  have b13: "\<forall>j < 13. accumulated f64_round tenth j \<le> 2"
    by (rule accumulated_below [OF b12 a12]) simp_all
  have b14: "\<forall>j < 14. accumulated f64_round tenth j \<le> 2"
    by (rule accumulated_below [OF b13 a13]) simp_all
  have b15: "\<forall>j < 15. accumulated f64_round tenth j \<le> 2"
    by (rule accumulated_below [OF b14 a14]) simp_all
  have b16: "\<forall>j < 16. accumulated f64_round tenth j \<le> 2"
    by (rule accumulated_below [OF b15 a15]) simp_all
  have b17: "\<forall>j < 17. accumulated f64_round tenth j \<le> 2"
    by (rule accumulated_below [OF b16 a16]) simp_all
  have b18: "\<forall>j < 18. accumulated f64_round tenth j \<le> 2"
    by (rule accumulated_below [OF b17 a17]) simp_all
  have b19: "\<forall>j < 19. accumulated f64_round tenth j \<le> 2"
    by (rule accumulated_below [OF b18 a18]) simp_all
  have b20: "\<forall>j < 20. accumulated f64_round tenth j \<le> 2"
    by (rule accumulated_below [OF b19 a19]) simp_all
  show ?thesis using a20 b20 by (rule conjI)
qed

text \<open>
  Claim C2, as the code has it. The times are accumulated: they start at 0 and each is
  the rounded sum of its predecessor and \<open>dt\<close>. Whenever some accumulated time is
  past \<open>final_time\<close> (with \<open>dt > 0\<close> that is so in exact arithmetic, lemma
  \<open>accumulated_exact_past\<close>, where the times are \<open>k dt\<close>, lemma \<open>accumulated_exact\<close>) and the step function \<open>g\<close> conforms to the contract,
  \<open>perform_integration\<close> returns these times together with the states
  \<open>x\<^sub>0, x\<^sub>1, \<dots>\<close>, \<open>x\<^sub>k\<^sub>+\<^sub>1 = g(dt, x\<^sub>k, f, u)\<close>, one state per column. The sequences
  are extended while the last time is at most \<open>final_time\<close>: every time but the last
  is at most \<open>final_time\<close> and the last one is past it.
\<close>

theorem perform_integration_trajectory:
  assumes past: "final_time < accumulated rnd dt n"
    and g: "conforming (length x0) g dt f u"
  shows "\<exists>ts X. perform_integration_fl rnd final_time dt x0 f u g = Some (Inr (ts, X)) \<and>
           0 < length ts \<and> length ts \<le> n + 1 \<and>
           length (samples X) = length ts \<and>
           (\<forall>k < length ts. ts ! k = accumulated rnd dt k) \<and>
           samples X ! 0 = x0 \<and>
           (\<forall>k. Suc k < length ts \<longrightarrow> g dt (samples X ! k) f u = Inr (samples X ! Suc k)) \<and>
           (\<forall>k. Suc k < length ts \<longrightarrow> ts ! k \<le> final_time) \<and>
           final_time < last ts"
proof -
  from first_past [OF past] obtain m where m: "m \<le> n" "final_time < accumulated rnd dt m"
    "\<forall>j < m. accumulated rnd dt j \<le> final_time" by blast
  let ?ts = "map (accumulated rnd dt) [0..<Suc m]"
  let ?xs = "x0 # states_from (advance g dt f u) x0 m"
  let ?X = "transpose_array \<lparr>ncols = length x0, rows = ?xs\<rparr>"
  have run: "perform_integration_fl rnd final_time dt x0 f u g = Some (Inr (?ts, ?X))"
    by (rule perform_integration_fl_run [OF g m(2,3)])
  have sm: "samples ?X = ?xs" by (rule trajectory_samples [OF g])
  have len: "length ?ts = Suc m" by simp
  have t: "?ts ! k = accumulated rnd dt k" if "k < Suc m" for k
    using that by (simp only: nth_map_upt [of k "Suc m" 0] add_0 diff_zero)
  have x0: "?xs ! 0 = x0" by simp
  have chain: "\<forall>k. Suc k < length ?ts \<longrightarrow> g dt (?xs ! k) f u = Inr (?xs ! Suc k)"
  proof (intro allI impI)
    fix k assume "Suc k < length ?ts"
    then have k: "k \<le> m" "Suc k \<le> m" by simp_all
    show "g dt (?xs ! k) f u = Inr (?xs ! Suc k)"
      unfolding nth_trajectory [OF k(1)] nth_trajectory [OF k(2)]
      by (rule funpow_advance_step [OF g refl])
  qed
  have below: "\<forall>k. Suc k < length ?ts \<longrightarrow> ?ts ! k \<le> final_time"
  proof (intro allI impI)
    fix k assume "Suc k < length ?ts"
    then have k: "k < m" by simp
    then have "?ts ! k = accumulated rnd dt k" by (intro t) simp
    then show "?ts ! k \<le> final_time" using m(3) k by simp
  qed
  have "last ?ts = ?ts ! (length ?ts - 1)" by (rule last_conv_nth) simp
  also have "\<dots> = ?ts ! m" by (simp only: len diff_Suc_1)
  also have "\<dots> = accumulated rnd dt m" by (rule t) simp
  finally have above: "final_time < last ?ts" using m(2) by simp
  have all: "0 < length ?ts \<and> length ?ts \<le> n + 1 \<and> length ?xs = length ?ts \<and>
             (\<forall>k < length ?ts. ?ts ! k = accumulated rnd dt k) \<and> ?xs ! 0 = x0"
    using t m(1) by simp
  show ?thesis
    apply (rule exI [of _ ?ts], rule exI [of _ ?X])
    unfolding sm
    using run all chain below above by blast
qed

theorem perform_integration_trajectory_witness:
  "5404319552844595 / 18014398509481984 < accumulated f64_round tenth 3 \<and>
   conforming (length [1, 0 :: real]) (euler_fl f64_round) tenth (x_dot slider) [3, 1] \<and>
   perform_integration_fl f64_round (5404319552844595 / 18014398509481984) tenth [1, 0]
     (x_dot slider) [3, 1] (euler_fl f64_round) =
   Some (Inr ([0, 3602879701896397 / 36028797018963968, 3602879701896397 / 18014398509481984,
               1351079888211149 / 4503599627370496],
              \<lparr>ncols = 4,
               rows = [[1, 1, 2296835809958953 / 2251799813685248,
                        2386907802506363 / 2251799813685248],
                       [0, 3602879701896397 / 18014398509481984,
                        3602879701896397 / 9007199254740992,
                        1351079888211149 / 2251799813685248]]\<rparr>)) \<and>
   5404319552844595 / 18014398509481984 <
     last [0, 3602879701896397 / 36028797018963968, 3602879701896397 / 18014398509481984,
           1351079888211149 / 4503599627370496 :: real] \<and>
   2 < accumulated f64_round tenth 20 \<and>
   (\<exists>ts X. perform_integration_fl f64_round 2 tenth [1, 0] (x_dot slider) [3, 1]
              (euler_fl f64_round) = Some (Inr (ts, X)) \<and>
            length ts = 21 \<and> last ts = 4503599627370497 / 2251799813685248)"
proof -
  have past: "5404319552844595 / 18014398509481984 < accumulated f64_round tenth 3"
    by (simp add: accumulated_tenth)
  have c: "conforming (length [1, 0 :: real]) (euler_fl f64_round) tenth (x_dot slider) [3, 1]"
    by (rule euler_fl_slider_conforming) simp
  note run = run_fl_three_tenths
  from perform_integration_trajectory [OF past c]
  obtain ts X where
    "perform_integration_fl f64_round (5404319552844595 / 18014398509481984) tenth [1, 0]
       (x_dot slider) [3, 1] (euler_fl f64_round) = Some (Inr (ts, X))"
    "5404319552844595 / 18014398509481984 < last ts"
    by blast
  with run have last: "5404319552844595 / 18014398509481984 <
     last [0, 3602879701896397 / 36028797018963968, 3602879701896397 / 18014398509481984,
           1351079888211149 / 4503599627370496 :: real]"
    by auto
  have past2: "2 < accumulated f64_round tenth 20"
    by (simp add: accumulated_twenty)
  from perform_integration_trajectory [OF past2 c]
  obtain ts X where r:
    "perform_integration_fl f64_round 2 tenth [1, 0] (x_dot slider) [3, 1] (euler_fl f64_round) =
       Some (Inr (ts, X))"
    and l: "0 < length ts" "length ts \<le> 20 + 1"
    and t: "\<forall>k < length ts. ts ! k = accumulated f64_round tenth k"
    and p: "2 < last ts"
    by blast
  have "last ts = ts ! (length ts - 1)" using l(1) by (intro last_conv_nth) auto
  also have "\<dots> = accumulated f64_round tenth (length ts - 1)" using t l(1) by simp
  finally have e: "last ts = accumulated f64_round tenth (length ts - 1)" .
  have "\<not> length ts - 1 < 20" using p e accumulated_twenty by (auto simp: not_less [symmetric])
  then have n: "length ts = 21" using l by simp
  then have "last ts = 4503599627370497 / 2251799813685248" using e accumulated_twenty by simp
  with r n have two: "\<exists>ts X. perform_integration_fl f64_round 2 tenth [1, 0] (x_dot slider) [3, 1]
              (euler_fl f64_round) = Some (Inr (ts, X)) \<and>
            length ts = 21 \<and> last ts = 4503599627370497 / 2251799813685248"
    by blast
  from past c run last past2 two show ?thesis by blast
qed

text \<open>
  On \<^verbatim>\<open>float64\<close> with \<open>final_time = 0.5\<close> and \<open>dt = 0.1\<close> the seventh time returned
  is \<open>0.6\<close>, the sum of six additions, where \<open>6 dt\<close> is \<open>0.6000000000000001\<close> as a
  \<^verbatim>\<open>float64\<close> product and another number again as a real product.
\<close>

theorem perform_integration_grid_counterexample:
  "(0 :: real) < 1 / 2 \<and> 0 < tenth \<and>
   conforming (length [1, 0 :: real]) (euler_fl f64_round) tenth (x_dot slider) [3, 1] \<and>
   perform_integration_fl f64_round (1 / 2) tenth [1, 0] (x_dot slider) [3, 1] (euler_fl f64_round) =
   Some (Inr ([0, 3602879701896397 / 36028797018963968, 3602879701896397 / 18014398509481984,
               1351079888211149 / 4503599627370496, 3602879701896397 / 9007199254740992, 1 / 2,
               5404319552844595 / 9007199254740992],
              \<lparr>ncols = 7,
               rows = [[1, 1, 2296835809958953 / 2251799813685248,
                        2386907802506363 / 2251799813685248, 1261007895663739 / 1125899906842624,
                        1351079888211149 / 1125899906842624, 2927339757790823 / 2251799813685248],
                       [0, 3602879701896397 / 18014398509481984,
                        3602879701896397 / 9007199254740992, 1351079888211149 / 2251799813685248,
                        3602879701896397 / 4503599627370496, 1,
                        5404319552844595 / 4503599627370496]]\<rparr>)) \<and>
   5404319552844595 / 9007199254740992 \<noteq> 6 * tenth \<and>
   5404319552844595 / 9007199254740992 \<noteq> f64_round (6 * tenth)"
proof -
  have c: "conforming (length [1, 0 :: real]) (euler_fl f64_round) tenth (x_dot slider) [3, 1]"
    by (rule euler_fl_slider_conforming) simp
  have run: "perform_integration_fl f64_round (1 / 2) tenth [1, 0] (x_dot slider) [3, 1] (euler_fl f64_round) =
   Some (Inr ([0, 3602879701896397 / 36028797018963968, 3602879701896397 / 18014398509481984,
               1351079888211149 / 4503599627370496, 3602879701896397 / 9007199254740992, 1 / 2,
               5404319552844595 / 9007199254740992],
              \<lparr>ncols = 7,
               rows = [[1, 1, 2296835809958953 / 2251799813685248,
                        2386907802506363 / 2251799813685248, 1261007895663739 / 1125899906842624,
                        1351079888211149 / 1125899906842624, 2927339757790823 / 2251799813685248],
                       [0, 3602879701896397 / 18014398509481984,
                        3602879701896397 / 9007199254740992, 1351079888211149 / 2251799813685248,
                        3602879701896397 / 4503599627370496, 1,
                        5404319552844595 / 4503599627370496]]\<rparr>))"
    by (simp add: perform_integration_fl_def integration_loop_fl.simps euler_fl_slider array_of_rows_def
        transpose_array_def column_def nrows_def upt_rec f64_simps tenth_def)
  have ne: "5404319552844595 / 9007199254740992 \<noteq> 6 * tenth"
    "5404319552844595 / 9007199254740992 \<noteq> f64_round (6 * tenth)"
    by (simp_all add: f64_simps tenth_def)
  have "(0 :: real) < 1 / 2" "0 < tenth" by (simp_all add: tenth_def)
  with c run ne show ?thesis by blast
qed



subsection \<open>Shooting cost and solver\<close>

lemma sum_list_upt: "sum_list (map f [0..<k]) = (\<Sum>i<k. f i)"
  by (simp add: interv_sum_list_conv_sum_set_nat atLeast0LessThan)

lemma sum_list_nth: "sum_list (map h xs) = (\<Sum>j<length xs. h (xs ! j))"
proof -
  have "sum_list (map h xs) = (\<Sum>j = 0..<length (map h xs). map h xs ! j)"
    by (rule sum_list_sum_nth)
  also have "\<dots> = (\<Sum>j<length xs. h (xs ! j))"
    by (intro sum.cong) auto
  finally show ?thesis .
qed

lemma take_upt0: "take k [0..<c] = [0..<min k c]"
  by (cases "k \<le> c") (simp_all add: min_def)

lemma bdim_one [simp]: "bdim m (Suc 0) = m"
  by (simp add: bdim_def)

lemma sum_take:
  assumes "length s = c"
  shows "sum_list (map h (take k s)) = (\<Sum>i<min k c. h (s ! i))"
proof -
  have "sum_list (map h (take k s)) = (\<Sum>i<length (take k s). h (take k s ! i))"
    by (rule sum_list_nth)
  also have "\<dots> = (\<Sum>i<min k c. h (s ! i))"
    using assms by (intro sum.cong) auto
  finally show ?thesis .
qed

lemma cost_of_trajectory:
  assumes all: "list_all (\<lambda>r. length r = c) xs" and tgt: "length target = 1"
  shows "\<exists>d. sub2 (take_rows n (transpose_array \<lparr>ncols = c, rows = xs\<rparr>)) (as_row target) = Inr d \<and>
             sum_all (square d) = (\<Sum>state\<leftarrow>xs. \<Sum>q\<leftarrow>take n state. (q - target ! 0)\<^sup>2)"
proof -
  let ?A = "take_rows n (transpose_array \<lparr>ncols = c, rows = xs\<rparr>)"
  let ?B = "as_row target"
  let ?a = "min n c"
  let ?m = "length xs"
  have rowsA: "rows ?A = map (\<lambda>i. map (\<lambda>r. r ! i) xs) [0..<?a]"
    by (simp add: take_rows_def transpose_array_def column_def take_map take_upt0)
  have nrA: "nrows ?A = ?a" by (simp add: nrows_def rowsA)
  have ncA: "ncols ?A = ?m" by (simp add: take_rows_def transpose_array_def nrows_def)
  have nrB: "nrows ?B = 1" by (simp add: as_row_def nrows_def)
  have ncB: "ncols ?B = 1" by (simp add: as_row_def tgt)
  let ?F = "\<lambda>i j. bget ?A i j - bget ?B i j"
  let ?d = "\<lparr>ncols = ?m, rows = map (\<lambda>i. map (\<lambda>j. ?F i j) [0..<?m]) [0..<?a]\<rparr>"
  have sub: "sub2 ?A ?B = Inr ?d"
    unfolding sub2_def broadcast2_def nrA ncA nrB ncB
    by (simp add: broadcastable_def)
  have getB: "bget ?B i j = target ! 0" for i j
    unfolding bget_def nrB ncB by (simp add: as_row_def)
  have getA: "bget ?A i j = xs ! j ! i" if "i < ?a" "j < ?m" for i j
  proof -
    have i: "(if nrows ?A = 1 then 0 else i) = i" using that nrA by auto
    have j: "(if ncols ?A = 1 then 0 else j) = j" using that ncA by auto
    show ?thesis unfolding bget_def i j rowsA using that by simp
  qed
  have "sum_all (square ?d) = (\<Sum>i<?a. \<Sum>j<?m. (?F i j)\<^sup>2)"
    by (simp add: sum_all_def square_def o_def sum_list_upt)
  also have "\<dots> = (\<Sum>i<?a. \<Sum>j<?m. (xs ! j ! i - target ! 0)\<^sup>2)"
    by (intro sum.cong refl) (simp add: getA getB)
  also have "\<dots> = (\<Sum>j<?m. \<Sum>i<?a. (xs ! j ! i - target ! 0)\<^sup>2)"
    by (rule sum.swap)
  also have "\<dots> = (\<Sum>j<?m. \<Sum>q\<leftarrow>take n (xs ! j). (q - target ! 0)\<^sup>2)"
  proof (intro sum.cong refl)
    fix j assume "j \<in> {..<?m}"
    then have "length (xs ! j) = c" using all by (simp add: list_all_length)
    then show "(\<Sum>i<?a. (xs ! j ! i - target ! 0)\<^sup>2) = (\<Sum>q\<leftarrow>take n (xs ! j). (q - target ! 0)\<^sup>2)"
      by (simp add: sum_take [of "xs ! j" c])
  qed
  also have "\<dots> = (\<Sum>state\<leftarrow>xs. \<Sum>q\<leftarrow>take n state. (q - target ! 0)\<^sup>2)"
    by (simp add: sum_list_nth [of "\<lambda>state. \<Sum>q\<leftarrow>take n state. (q - target ! 0)\<^sup>2" xs])
  finally show ?thesis using sub by blast
qed

lemma array_of_rows_Inr:
  "array_of_rows xs = Inr a \<Longrightarrow> \<exists>c. a = \<lparr>ncols = c, rows = xs\<rparr> \<and> list_all (\<lambda>r. length r = c) xs"
  by (auto simp: array_of_rows_def split: list.splits if_splits)

lemma perform_integration_shape:
  assumes "perform_integration final_time dt x0 f u g = Some (Inr (t, X))"
  shows "\<exists>c xs. X = transpose_array \<lparr>ncols = c, rows = xs\<rparr> \<and> list_all (\<lambda>r. length r = c) xs"
proof -
  from assms obtain all_x a where
    a: "array_of_rows all_x = Inr a" and X: "X = transpose_array a"
    unfolding perform_integration_def
    by (auto split: option.splits sum.splits prod.splits)
  from array_of_rows_Inr [OF a] X show ?thesis by blast
qed

lemma run_slider: "perform_integration 1 (1 / 2) [6 / 5, 0] (x_dot slider) [3, 1] euler =
     Some (Inr ([0, 1 / 2, 1, 3 / 2],
                \<lparr>ncols = 4, rows = [[6 / 5, 6 / 5, 17 / 10, 27 / 10], [0, 1, 2, 3]]\<rparr>))"
  by (simp add: perform_integration_def integration_loop.simps euler_slider array_of_rows_def
      transpose_array_def column_def nrows_def upt_rec)

text \<open>
  Claim C4. The cost of a candidate vector is the result of integrating from its
  leading \<open>2 n_q\<close> entries under its remaining entries as constant control with
  \<open>perform_integration\<close> (diverging or failing as the driver does), then summing over
  every sampled state the squared deviation of its position entries from the target:
  a sum over all samples, not the value at the last one. The target has one entry, as
  \<^verbatim>\<open>target_position = (1.20, )\<close> in the notebook, and numpy subtracts it from every
  position entry.
\<close>

theorem lagrange_cost_path:
  assumes "length target_position = 1"
  shows "lagrange_cost_function n_q final_time dt target_position f g x =
     (case perform_integration final_time dt (take (n_q * 2) x) f (drop (n_q * 2) x) g of
        None \<Rightarrow> None
      | Some (Inl e) \<Rightarrow> Some (Inl e)
      | Some (Inr (t, X)) \<Rightarrow>
          Some (Inr (\<Sum>state\<leftarrow>samples X. \<Sum>q\<leftarrow>take n_q state. (q - target_position ! 0)\<^sup>2)))"
proof (cases "perform_integration final_time dt (take (n_q * 2) x) f (drop (n_q * 2) x) g")
  case None
  then show ?thesis by (simp add: lagrange_cost_function_def)
next
  case (Some r)
  show ?thesis
  proof (cases r)
    case (Inl e)
    then show ?thesis using Some by (simp add: lagrange_cost_function_def)
  next
    case (Inr tx)
    obtain t X where tx: "tx = (t, X)" by (cases tx)
    have run: "perform_integration final_time dt (take (n_q * 2) x) f (drop (n_q * 2) x) g = Some (Inr (t, X))"
      using Some Inr tx by simp
    from perform_integration_shape [OF run] obtain c xs where
      X: "X = transpose_array \<lparr>ncols = c, rows = xs\<rparr>" and all: "list_all (\<lambda>r. length r = c) xs"
      by blast
    from cost_of_trajectory [OF all assms, of n_q] obtain d where
      d: "sub2 (take_rows n_q X) (as_row target_position) = Inr d"
         "sum_all (square d) = (\<Sum>state\<leftarrow>xs. \<Sum>q\<leftarrow>take n_q state. (q - target_position ! 0)\<^sup>2)"
      unfolding X by blast
    have sm: "samples X = xs" unfolding X by (rule samples_transpose [OF all])
    show ?thesis
      using run d sm by (simp add: lagrange_cost_function_def)
  qed
qed

theorem lagrange_cost_path_witness:
  "length [6 / 5 :: real] = 1 \<and>
   lagrange_cost_function 1 1 (1 / 2) [6 / 5] (x_dot slider) euler [6 / 5, 0, 3, 1] =
     Some (Inr (5 / 2))"
proof -
  have h: "length [6 / 5 :: real] = 1" by simp
  have "lagrange_cost_function 1 1 (1 / 2) [6 / 5] (x_dot slider) euler [6 / 5, 0, 3, 1] =
     Some (Inr (5 / 2))"
    using lagrange_cost_path [OF h, of 1 1 "1 / 2" "x_dot slider" euler "[6 / 5, 0, 3, 1]"]
    by (simp add: run_slider samples_def column_def upt_rec power2_eq_square)
  with h show ?thesis by simp
qed

text \<open>
  Claim C8, as the code has it. A lower bound above its upper bound makes the solver
  fail with ValueError whatever the cost functional and the optimizer's iterations
  are: neither is run. A control bound that excludes the matching component of the
  initial guess is no error: when the bounds list has the length of the guess and no
  lower bound lies above its upper bound, the iterations run from the guess clipped
  into the bounds, and the solver returns what they return, split after \<open>2 n_q\<close>
  entries.
\<close>

theorem optimal_control_bounds:
  "(list_ex (\<lambda>(lo, hi). hi < lo) bnds \<longrightarrow>
      optimal_control lbfgsb n_q cost guess bnds = Inl ValueError) \<and>
   (length bnds = length guess \<and> \<not> list_ex (\<lambda>(lo, hi). hi < lo) bnds \<longrightarrow>
      optimal_control lbfgsb n_q cost guess bnds =
        map_sum id (\<lambda>results_x. (take (n_q * 2) results_x, drop (n_q * 2) results_x))
          (lbfgsb cost (clip guess bnds) bnds))"
  by (simp add: optimal_control_def minimize_def check_bounds_def broadcast_bounds_def
      split: sum.splits)

lemma notebook_guess: "initial_guess [6 / 5] 1 = [6 / 5, 0, 1 / 10, 1 / 10000]"
  by (simp add: initial_guess_def)

lemma notebook_bounds:
  "bounds 1 2 = [(- 2 * pi, 2 * pi), (- 20 * pi, 20 * pi), (1 / 1000, 999 / 1000),
                 (1 / 1000, 999 / 1000)]"
  by (simp add: bounds_def numeral_2_eq_2)

lemma notebook_ordered: "\<not> list_ex (\<lambda>(lo, hi). hi < lo) (bounds 1 2)"
proof -
  have "- (2 * pi) \<le> 2 * pi" "- (20 * pi) \<le> 20 * pi" using pi_ge_two by simp_all
  then show ?thesis unfolding notebook_bounds by (simp add: not_less)
qed

lemma notebook_clip:
  "clip (initial_guess [6 / 5] 1) (bounds 1 2) = [6 / 5, 0, 1 / 10, 1 / 1000]"
proof -
  have "6 / 5 \<le> 2 * pi" "- (2 * pi) \<le> 6 / 5" "0 \<le> 20 * pi" "- (20 * pi) \<le> 0"
    using pi_ge_two by simp_all
  then show ?thesis
    unfolding notebook_guess notebook_bounds by (simp add: clip_def min_def max_def)
qed

theorem optimal_control_bounds_witness:
  "list_ex (\<lambda>(lo, hi). hi < lo) [(- 1, 1), (0, 1), (999 / 1000, 1 / 1000 :: real)] \<and>
   optimal_control no_iterations 1 (lagrange_cost_function 1 2 (1 / 10) [6 / 5] (x_dot slider) rk4)
     [6 / 5, 0, 1 / 10] [(- 1, 1), (0, 1), (999 / 1000, 1 / 1000)] = Inl ValueError \<and>
   length (bounds 1 2) = length (initial_guess [6 / 5] 1) \<and>
   \<not> list_ex (\<lambda>(lo, hi). hi < lo) (bounds 1 2) \<and>
   optimal_control no_iterations 1 (lagrange_cost_function 1 2 (1 / 10) [6 / 5] (x_dot slider) rk4)
     (initial_guess [6 / 5] 1) (bounds 1 2) = Inr ([6 / 5, 0], [1 / 10, 1 / 1000])"
proof -
  let ?cost = "lagrange_cost_function 1 2 (1 / 10) [6 / 5] (x_dot slider) rk4"
  have bad: "list_ex (\<lambda>(lo, hi). hi < lo) [(- 1, 1), (0, 1), (999 / 1000, 1 / 1000 :: real)]"
    by simp
  have len: "length (bounds 1 2) = length (initial_guess [6 / 5] 1)"
    unfolding notebook_guess notebook_bounds by simp
  note ord = notebook_ordered
  have a: "optimal_control no_iterations 1 ?cost [6 / 5, 0, 1 / 10]
             [(- 1, 1), (0, 1), (999 / 1000, 1 / 1000)] = Inl ValueError"
    using optimal_control_bounds [of "[(- 1, 1), (0, 1), (999 / 1000, 1 / 1000)]" no_iterations 1
        ?cost "[6 / 5, 0, 1 / 10]"] bad by blast
  have "optimal_control no_iterations 1 ?cost (initial_guess [6 / 5] 1) (bounds 1 2) =
          map_sum id (\<lambda>results_x. (take (1 * 2) results_x, drop (1 * 2) results_x))
            (no_iterations ?cost (clip (initial_guess [6 / 5] 1) (bounds 1 2)) (bounds 1 2))"
    using optimal_control_bounds [of "bounds 1 2" no_iterations 1 ?cost "initial_guess [6 / 5] 1"]
      len ord by blast
  then have b: "optimal_control no_iterations 1 ?cost (initial_guess [6 / 5] 1) (bounds 1 2) =
          Inr ([6 / 5, 0], [1 / 10, 1 / 1000])"
    unfolding notebook_clip by (simp add: no_iterations_def)
  from bad a len ord b show ?thesis by blast
qed

text \<open>
  The notebook's own call has invalid bounds in the sense of the claim: its second
  control \<open>0.0001\<close> lies below the lower bound \<open>0.001\<close>. The check of the bounds
  raises nothing: whatever the iterations are, they are run from the clipped guess
  and the call returns what they return.
\<close>

theorem optimal_control_invalid_bounds_counterexample:
  "invalid_bounds 1 (initial_guess [6 / 5] 1) (bounds 1 2) \<and>
   check_bounds (initial_guess [6 / 5] 1) (bounds 1 2) =
     Inr ([6 / 5, 0, 1 / 10, 1 / 1000], bounds 1 2) \<and>
   (\<forall>lbfgsb cost.
      optimal_control lbfgsb 1 cost (initial_guess [6 / 5] 1) (bounds 1 2) =
        map_sum id (\<lambda>results_x. (take 2 results_x, drop 2 results_x))
          (lbfgsb cost [6 / 5, 0, 1 / 10, 1 / 1000] (bounds 1 2)))"
proof -
  have inv: "invalid_bounds 1 (initial_guess [6 / 5] 1) (bounds 1 2)"
    unfolding notebook_guess notebook_bounds by (simp add: invalid_bounds_def)
  have len: "length (bounds 1 2) = length (initial_guess [6 / 5] 1)"
    unfolding notebook_guess notebook_bounds by simp
  have "check_bounds (initial_guess [6 / 5] 1) (bounds 1 2) =
          Inr (clip (initial_guess [6 / 5] 1) (bounds 1 2), bounds 1 2)"
    using notebook_ordered len by (simp add: check_bounds_def broadcast_bounds_def)
  then have chk: "check_bounds (initial_guess [6 / 5] 1) (bounds 1 2) =
          Inr ([6 / 5, 0, 1 / 10, 1 / 1000], bounds 1 2)"
    unfolding notebook_clip .
  have run: "optimal_control lbfgsb 1 cost (initial_guess [6 / 5] 1) (bounds 1 2) =
        map_sum id (\<lambda>results_x. (take 2 results_x, drop 2 results_x))
          (lbfgsb cost [6 / 5, 0, 1 / 10, 1 / 1000] (bounds 1 2))" for lbfgsb cost
    unfolding optimal_control_def minimize_def chk by (simp split: sum.splits)
  from inv chk run show ?thesis by blast
qed

subsection \<open>Inverse kinematics\<close>

lemma ik_body_result:
  "fst (ik_body model pinv rm rq s calls) =
     (case ik_update model pinv (s rm) (s rq) of Inl e \<Rightarrow> Some e | Inr q' \<Rightarrow> None)"
  by (auto simp: ik_body_def ik_update_def bind_res_def Let_def split: sum.splits)

lemma ik_body_store:
  "fst (snd (ik_body model pinv rm rq s calls)) =
     (case ik_update model pinv (s rm) (s rq) of Inl e \<Rightarrow> s | Inr q' \<Rightarrow> s(rq := q'))"
  by (auto simp: ik_body_def ik_update_def bind_res_def Let_def split: sum.splits)

lemma ik_body_calls:
  "fst (ik_body model pinv rm rq s calls) = None \<Longrightarrow>
   length (snd (snd (ik_body model pinv rm rq s calls))) = length calls + 3"
  by (auto simp: ik_body_def Let_def split: sum.splits)

lemma ik_loop_run:
  assumes "rm \<noteq> rq"
  shows "fst (ik_loop model pinv rm rq n s calls) =
           (case iterate_res n (ik_update model pinv (s rm)) (s rq) of
              Inl e \<Rightarrow> Some e | Inr q \<Rightarrow> None) \<and>
         (\<forall>q. iterate_res n (ik_update model pinv (s rm)) (s rq) = Inr q \<longrightarrow>
              fst (snd (ik_loop model pinv rm rq n s calls)) = s(rq := q) \<and>
              length (snd (snd (ik_loop model pinv rm rq n s calls))) = length calls + 3 * n)"
proof (induction n arbitrary: s calls)
  case 0
  show ?case by auto
next
  case (Suc n)
  show ?case
  proof (cases "ik_update model pinv (s rm) (s rq)")
    case (Inl e)
    obtain eo s' calls' where b: "ik_body model pinv rm rq s calls = (eo, s', calls')"
      by (cases "ik_body model pinv rm rq s calls") auto
    have "eo = Some e" using ik_body_result [of model pinv rm rq s calls] b Inl by simp
    then show ?thesis using b Inl by simp
  next
    case (Inr q')
    obtain eo s' calls' where b: "ik_body model pinv rm rq s calls = (eo, s', calls')"
      by (cases "ik_body model pinv rm rq s calls") auto
    have eo: "eo = None" using ik_body_result [of model pinv rm rq s calls] b Inr by simp
    have s': "s' = s(rq := q')" using ik_body_store [of model pinv rm rq s calls] b Inr by simp
    have c': "length calls' = length calls + 3"
      using ik_body_calls [of model pinv rm rq s calls] b eo by simp
    have rm: "s' rm = s rm" and rq: "s' rq = q'" using assms s' by simp_all
    have loop: "ik_loop model pinv rm rq (Suc n) s calls = ik_loop model pinv rm rq n s' calls'"
      using b eo by simp
    have it: "iterate_res (Suc n) (ik_update model pinv (s rm)) (s rq) =
              iterate_res n (ik_update model pinv (s' rm)) (s' rq)"
      using Inr rm rq by (simp add: bind_res_def)
    have upd: "s'(rq := q) = s(rq := q)" for q using s' by simp
    show ?thesis
      unfolding loop it using Suc.IH [of s' calls'] c' by (simp add: upd)
  qed
qed

lemma ik_loop_frame:
  "r \<noteq> rq \<Longrightarrow> fst (snd (ik_loop model pinv rm rq n s calls)) r = s r"
proof (induction n arbitrary: s calls)
  case 0
  show ?case by simp
next
  case (Suc n)
  obtain eo s' calls' where b: "ik_body model pinv rm rq s calls = (eo, s', calls')"
    by (cases "ik_body model pinv rm rq s calls") auto
  have "s' r = s r"
    using ik_body_store [of model pinv rm rq s calls] b Suc.prems by (simp split: sum.splits)
  then show ?case using b Suc.IH [OF Suc.prems, of s' calls'] by (cases eo) simp_all
qed

lemma inverse_kinematics_parts:
  "fst (inverse_kinematics model pinv rm rq N s calls) =
     (case fst (ik_loop model pinv rm rq (nat N) s calls) of Some e \<Rightarrow> Inl e | None \<Rightarrow> Inr rq)"
  "snd (inverse_kinematics model pinv rm rq N s calls) = snd (ik_loop model pinv rm rq (nat N) s calls)"
  by (simp_all add: inverse_kinematics_def split: prod.splits option.splits)

lemma marker_jacobian_slider: "marker_jacobian slider q = Inr slider_jacobian"
  by (simp add: marker_jacobian_def concatenate0_def slider_def slider_jacobian_def)

lemma pinv_slider: "pinv_column slider_jacobian = \<lparr>ncols = 3, rows = [[1 / 5, 2 / 5, 0]]\<rparr>"
  by (simp add: pinv_column_def slider_jacobian_def nrows_def)

lemma forward_kinematics_slider:
  "forward_kinematics slider [q] = \<lparr>ncols = 1, rows = [[q], [2 * q], [0]]\<rparr>"
  by (simp add: forward_kinematics_def newaxis_def slider_def)

lemmas numpy_simps = column0_def sub2_def isub2_def broadcast2_def broadcastable_def bdim_def
  bget_def nrows_def matmul_def dot_def column_def upt_rec

lemma ik_update_slider:
  "ik_update slider pinv_column \<lparr>ncols = Suc 0, rows = [[a], [b], [c]]\<rparr>
       \<lparr>ncols = Suc 0, rows = [[q]]\<rparr> =
     Inr \<lparr>ncols = Suc 0, rows = [[q - ((q - a) + 2 * (2 * q - b)) / 5]]\<rparr>"
  by (simp add: ik_update_def marker_jacobian_slider pinv_slider forward_kinematics_slider
      numpy_simps field_simps)

lemma ik_body_slider_one:
  "ik_body slider pinv_column 0 (Suc 0) store_one [] =
     (None, store_one(Suc 0 := \<lparr>ncols = Suc 0, rows = [[3]]\<rparr>),
      [Markers [0], MarkersJacobian [0], Pinv slider_jacobian])"
  by (simp add: ik_body_def store_one_def marker_jacobian_slider pinv_slider forward_kinematics_slider
      numpy_simps Let_def)

lemma iterate_slider:
  "iterate_res 2 (ik_update slider pinv_column (store_matching 0)) (store_matching (Suc 0)) =
     Inr \<lparr>ncols = Suc 0, rows = [[1]]\<rparr>"
  by (simp add: numeral_2_eq_2 store_matching_def ik_update_slider)

lemma length_foldl_markers:
  "list_all (\<lambda>p. length p = 3) ps \<Longrightarrow>
   length (foldl (\<lambda>markersVector marker. markersVector @ marker) acc ps) = length acc + 3 * length ps"
  by (induction ps arbitrary: acc) simp_all

lemma nrows_forward_kinematics:
  "list_all (\<lambda>p. length p = 3) (markers model q) \<Longrightarrow>
   nrows (forward_kinematics model q) = 3 * length (markers model q)"
  by (simp add: forward_kinematics_def newaxis_def nrows_def length_foldl_markers)

text \<open>
  Claim C1. For an observed marker array and an initial guess that are two objects and
  an iteration count \<open>N\<close>, \<open>inverse_kinematics\<close> makes exactly \<open>N\<close> passes (three
  collaborator calls each, no tolerance, no early exit); each pass replaces \<open>q\<close> by
  \<open>q - pinv (Jacobian q) \<cdot> (simulated q - observed)\<close>, and the array returned holds
  the \<open>N\<close>-th iterate from \<open>q_init\<close>. Only an exception of numpy ends the loop
  before.
\<close>

theorem inverse_kinematics_iterates:
  assumes "real_markers \<noteq> q_init"
  shows "fst (inverse_kinematics model pinv real_markers q_init (int N) s calls) =
           (case iterate_res N (ik_update model pinv (s real_markers)) (s q_init) of
              Inl e \<Rightarrow> Inl e | Inr q \<Rightarrow> Inr q_init) \<and>
         (\<forall>q. iterate_res N (ik_update model pinv (s real_markers)) (s q_init) = Inr q \<longrightarrow>
              fst (snd (inverse_kinematics model pinv real_markers q_init (int N) s calls)) q_init = q \<and>
              length (snd (snd (inverse_kinematics model pinv real_markers q_init (int N) s calls))) =
                length calls + 3 * N)"
  using ik_loop_run [OF assms, of model pinv N s calls]
  by (auto simp: inverse_kinematics_parts split: sum.splits)

theorem inverse_kinematics_iterates_witness:
  "(0 :: ref) \<noteq> 1 \<and>
   fst (inverse_kinematics slider pinv_column 0 1 (int 2) store_matching []) = Inr 1 \<and>
   fst (snd (inverse_kinematics slider pinv_column 0 1 (int 2) store_matching [])) 1 =
     \<lparr>ncols = 1, rows = [[1]]\<rparr> \<and>
   length (snd (snd (inverse_kinematics slider pinv_column 0 1 (int 2) store_matching []))) = 6"
proof -
  have ne: "(0 :: ref) \<noteq> 1" by simp
  show ?thesis
    using inverse_kinematics_iterates [OF ne, of slider pinv_column 2 store_matching "[]"]
    by (simp add: iterate_slider)
qed

text \<open>
  Claim C9. When the \<open>N \<ge> 1\<close> updates from \<open>q_init\<close> succeed with the result \<open>q\<close>
  (observed markers and initial guess being two objects), the call returns the
  reference \<open>q_init\<close> itself, and the store it leaves is the caller's store with the
  object \<open>q_init\<close> overwritten by \<open>q\<close>: the buffer of the initial guess holds the
  solved \<open>q\<close>, and nothing else has changed.
\<close>

theorem inverse_kinematics_in_place:
  assumes "1 \<le> N"
    and "real_markers \<noteq> q_init"
    and "iterate_res (nat N) (ik_update model pinv (s real_markers)) (s q_init) = Inr q"
  shows "fst (inverse_kinematics model pinv real_markers q_init N s calls) = Inr q_init \<and>
         fst (snd (inverse_kinematics model pinv real_markers q_init N s calls)) = s(q_init := q)"
  using ik_loop_run [OF assms(2), of model pinv "nat N" s calls] assms(3)
  by (simp add: inverse_kinematics_parts)

theorem inverse_kinematics_in_place_witness:
  "(1 :: int) \<le> 2 \<and> (0 :: ref) \<noteq> 1 \<and>
   iterate_res (nat 2) (ik_update slider pinv_column (store_matching 0)) (store_matching 1) =
     Inr \<lparr>ncols = 1, rows = [[1]]\<rparr> \<and>
   fst (inverse_kinematics slider pinv_column 0 1 2 store_matching []) = Inr 1 \<and>
   fst (snd (inverse_kinematics slider pinv_column 0 1 2 store_matching [])) =
     store_matching(1 := \<lparr>ncols = 1, rows = [[1]]\<rparr>) \<and>
   store_matching 1 = \<lparr>ncols = 1, rows = [[0]]\<rparr>"
proof -
  have n: "(1 :: int) \<le> 2" by simp
  have ne: "(0 :: ref) \<noteq> 1" by simp
  have it: "iterate_res (nat 2) (ik_update slider pinv_column (store_matching 0)) (store_matching 1) =
     Inr \<lparr>ncols = 1, rows = [[1]]\<rparr>"
    using iterate_slider by simp
  have old: "store_matching 1 = \<lparr>ncols = 1, rows = [[0]]\<rparr>" by (simp add: store_matching_def)
  from inverse_kinematics_in_place [OF n ne it, of "[]"] n ne it old
  show ?thesis by blast
qed

text \<open>
  Claim C7, as the code has it. \<open>inverse_kinematics\<close> checks no dimension. When the
  observed column is not 3 entries per marker long: with \<open>N \<le> 0\<close> the call returns
  \<open>q_init\<close> untouched and raises nothing; with \<open>N \<ge> 1\<close> and an observed length other
  than 1 the first pass asks the model for the markers and the Jacobian and numpy for
  the pseudo-inverse, and only then the subtraction raises ValueError, \<open>q_init\<close> not
  yet updated.
\<close>

theorem inverse_kinematics_mismatch:
  assumes q: "column0 (s q_init) = Inr q"
    and J: "marker_jacobian model q = Inr J"
    and pts: "list_all (\<lambda>p. length p = 3) (markers model q)"
    and mismatch: "nrows (s real_markers) \<noteq> 3 * length (markers model q)"
  shows "(N \<le> 0 \<longrightarrow>
            inverse_kinematics model pinv real_markers q_init N s calls = (Inr q_init, s, calls)) \<and>
         (1 \<le> N \<and> nrows (s real_markers) \<noteq> 1 \<longrightarrow>
            inverse_kinematics model pinv real_markers q_init N s calls =
              (Inl ValueError, s, calls @ [Markers q, MarkersJacobian q, Pinv J]))"
proof (intro conjI impI)
  assume "N \<le> 0"
  then show "inverse_kinematics model pinv real_markers q_init N s calls = (Inr q_init, s, calls)"
    by (simp add: inverse_kinematics_def)
next
  assume a: "1 \<le> N \<and> nrows (s real_markers) \<noteq> 1"
  then obtain n where n: "nat N = Suc n" by (cases "nat N") auto
  have fk: "nrows (forward_kinematics model q) = 3 * length (markers model q)"
    by (rule nrows_forward_kinematics [OF pts])
  have "3 * length (markers model q) \<noteq> 1" by presburger
  then have "\<not> broadcastable (nrows (forward_kinematics model q)) (nrows (s real_markers))"
    unfolding fk broadcastable_def using a mismatch by auto
  then have sub: "sub2 (forward_kinematics model q) (s real_markers) = Inl ValueError"
    by (simp add: sub2_def broadcast2_def)
  have "ik_body model pinv real_markers q_init s calls =
          (Some ValueError, s, calls @ [Markers q, MarkersJacobian q, Pinv J])"
    by (simp add: ik_body_def q J sub Let_def)
  then show "inverse_kinematics model pinv real_markers q_init N s calls =
              (Inl ValueError, s, calls @ [Markers q, MarkersJacobian q, Pinv J])"
    by (simp add: inverse_kinematics_def n)
qed

theorem inverse_kinematics_mismatch_witness:
  "column0 (store_two 1) = Inr [0] \<and>
   marker_jacobian slider [0] = Inr slider_jacobian \<and>
   list_all (\<lambda>p. length p = 3) (markers slider [0]) \<and>
   nrows (store_two 0) \<noteq> 3 * length (markers slider [0]) \<and>
   inverse_kinematics slider pinv_column 0 1 0 store_two [] = (Inr 1, store_two, []) \<and>
   inverse_kinematics slider pinv_column 0 1 1 store_two [] =
     (Inl ValueError, store_two, [Markers [0], MarkersJacobian [0], Pinv slider_jacobian])"
proof -
  have q: "column0 (store_two 1) = Inr [0]"
    by (simp add: store_two_def column0_def)
  have J: "marker_jacobian slider [0] = Inr slider_jacobian"
    by (rule marker_jacobian_slider)
  have pts: "list_all (\<lambda>p. length p = 3) (markers slider [0])"
    by (simp add: slider_def)
  have mm: "nrows (store_two 0) \<noteq> 3 * length (markers slider [0])"
    by (simp add: store_two_def slider_def nrows_def)
  have one: "nrows (store_two 0) \<noteq> 1"
    by (simp add: store_two_def nrows_def)
  from inverse_kinematics_mismatch [OF q J pts mm, of 0 pinv_column "[]"]
  have a: "inverse_kinematics slider pinv_column 0 1 0 store_two [] = (Inr 1, store_two, [])"
    by simp
  from inverse_kinematics_mismatch [OF q J pts mm, of 1 pinv_column "[]"] one
  have b: "inverse_kinematics slider pinv_column 0 1 1 store_two [] =
     (Inl ValueError, store_two, [Markers [0], MarkersJacobian [0], Pinv slider_jacobian])"
    by simp
  show ?thesis using q J pts mm a b by blast
qed

text \<open>
  An observed column of length 1 against one marker is broadcast by numpy: the call
  returns normally, with \<open>q_init\<close> updated.
\<close>

theorem inverse_kinematics_mismatch_counterexample:
  "nrows (store_one 0) \<noteq> 3 * length (markers slider [0]) \<and>
   inverse_kinematics slider pinv_column 0 1 1 store_one [] =
     (Inr 1, store_one(1 := \<lparr>ncols = 1, rows = [[3]]\<rparr>),
      [Markers [0], MarkersJacobian [0], Pinv slider_jacobian])"
proof -
  have "nrows (store_one 0) \<noteq> 3 * length (markers slider [0])"
    by (simp add: store_one_def slider_def nrows_def)
  moreover have "inverse_kinematics slider pinv_column 0 1 1 store_one [] =
     (Inr 1, store_one(1 := \<lparr>ncols = 1, rows = [[3]]\<rparr>),
      [Markers [0], MarkersJacobian [0], Pinv slider_jacobian])"
    by (simp add: inverse_kinematics_def ik_body_slider_one)
  ultimately show ?thesis by simp
qed

end
